theory Spec2Isabelle
  imports Complex_Main "HOL-Library.Sublist"
begin

section \<open>Values exchanged with the outside world\<close>

text \<open>
  The parsed body of an HTTP response, as \<^verbatim>\<open>response.json()\<close> returns it. Python's
  \<^verbatim>\<open>None\<close> is \<open>JNull\<close>: a function that "returns None" returns \<open>JNull\<close>. A
  \<open>JObj\<close> is the Python dict, looked up with \<open>map_of\<close>. Numbers are only copied and
  compared for equality, never computed with, so a rational stands for the float.
\<close>

datatype json =
    JNull
  | JBool bool
  | JNum rat
  | JStr string
  | JArr "json list"
  | JObj "(string \<times> json) list"

datatype integrity = UniqueViolation | NotNullViolation

text \<open>
  The exceptions that can travel through the program. \<open>IntegrityError\<close> is
  \<^verbatim>\<open>sqlite3.IntegrityError\<close>, \<open>SqliteError\<close> any other \<^verbatim>\<open>sqlite3.Error\<close>,
  \<open>DatabaseError e\<close> the \<^verbatim>\<open>pandas.errors.DatabaseError\<close> that pandas raises from
  the exception \<open>e\<close> (it is no \<^verbatim>\<open>sqlite3.Error\<close>), \<open>OtherException\<close> any other
  \<^verbatim>\<open>Exception\<close> (ValueError, RecursionError and so on).
\<close>

datatype py_exc =
    TypeError
  | KeyError string
  | IntegrityError integrity
  | SqliteError string
  | DatabaseError py_exc
  | OtherException string

record location =
  latitude :: rat
  longitude :: rat
  timezone :: string
  continent :: string
  city :: string

definition LOCATIONS :: "location list" where
  "LOCATIONS = [
    \<lparr>latitude = 34.0522, longitude = -118.2437, timezone = ''America/Los_Angeles'',
       continent = ''North America'', city = ''Los Angeles''\<rparr>,
    \<lparr>latitude = 40.7128, longitude = -74.0060, timezone = ''America/New_York'',
       continent = ''North America'', city = ''New York''\<rparr>,
    \<lparr>latitude = 45.4215, longitude = -75.6972, timezone = ''America/Toronto'',
       continent = ''North America'', city = ''Ottawa''\<rparr>,
    \<lparr>latitude = -23.5505, longitude = -46.6333, timezone = ''America/Sao_Paulo'',
       continent = ''South America'', city = ''Sao Paulo''\<rparr>,
    \<lparr>latitude = -33.4489, longitude = -70.6693, timezone = ''America/Santiago'',
       continent = ''South America'', city = ''Santiago''\<rparr>,
    \<lparr>latitude = 51.5074, longitude = -0.1278, timezone = ''Europe/London'',
       continent = ''Europe'', city = ''London''\<rparr>,
    \<lparr>latitude = 48.8566, longitude = 2.3522, timezone = ''Europe/Paris'',
       continent = ''Europe'', city = ''Paris''\<rparr>,
    \<lparr>latitude = 52.5200, longitude = 13.4050, timezone = ''Europe/Berlin'',
       continent = ''Europe'', city = ''Berlin''\<rparr>,
    \<lparr>latitude = 35.6895, longitude = 139.6917, timezone = ''Asia/Tokyo'',
       continent = ''Asia'', city = ''Tokyo''\<rparr>,
    \<lparr>latitude = 28.7041, longitude = 77.1025, timezone = ''Asia/Kolkata'',
       continent = ''Asia'', city = ''New Delhi''\<rparr>,
    \<lparr>latitude = 39.9042, longitude = 116.4074, timezone = ''Asia/Shanghai'',
       continent = ''Asia'', city = ''Beijing''\<rparr>,
    \<lparr>latitude = -26.2041, longitude = 28.0473, timezone = ''Africa/Johannesburg'',
       continent = ''Africa'', city = ''Johannesburg''\<rparr>,
    \<lparr>latitude = 30.0444, longitude = 31.2357, timezone = ''Africa/Cairo'',
       continent = ''Africa'', city = ''Cairo''\<rparr>,
    \<lparr>latitude = -33.8688, longitude = 151.2093, timezone = ''Australia/Sydney'',
       continent = ''Australia'', city = ''Sydney''\<rparr>,
    \<lparr>latitude = -36.8485, longitude = 174.7633, timezone = ''Pacific/Auckland'',
       continent = ''Australia'', city = ''Auckland''\<rparr>]"

section \<open>What the process does, in order\<close>

text \<open>One constructor for each \<^verbatim>\<open>print\<close> of the source, with the values it formats.\<close>

datatype log_entry =
    StartingPipeline
  | WarnKeyNotFound rat rat
  | ApiHttpError rat rat nat string
  | ApiRequestError rat rat string
  | TableProcessed
  | ErrorCreatingTable string
  | ErrorStoringData string
  | UnexpectedStorageError py_exc
  | SkippingStorage string
  | PipelineFinished nat
  | MainPipelineError py_exc
  | ConnectionClosed

datatype event =
    Print log_entry
  | HttpGet rat rat string
  | Sleep rat

section \<open>fetch_current_weather\<close>

text \<open>
  What \<^verbatim>\<open>requests.get\<close> meets: a transport failure (connection refused, timeout, DNS:
  a \<^verbatim>\<open>RequestException\<close> that is not an \<^verbatim>\<open>HTTPError\<close>), or a response with its
  status code, its text and its parsed body (\<open>None\<close> when the text is not JSON and
  \<^verbatim>\<open>response.json()\<close> raises \<^verbatim>\<open>requests.exceptions.JSONDecodeError\<close>, a
  \<^verbatim>\<open>RequestException\<close> since requests 2.27), or a response with its status code and
  its text on which \<^verbatim>\<open>response.json()\<close> raises an exception that is no
  \<^verbatim>\<open>RequestException\<close> (ValueError on an integer of more than 4300 digits,
  RecursionError on a deeply nested body, the decoder's own ValueError with requests
  before 2.27).
\<close>

datatype http_outcome =
    RequestFailed string
  | Responded nat string "json option"
  | JsonRaised nat string py_exc

definition raise_for_status :: "nat \<Rightarrow> bool" where
  "raise_for_status status = (400 \<le> status \<and> status < 600)"

fun is_substring :: "string \<Rightarrow> string \<Rightarrow> bool" where
  "is_substring p [] = (p = [])"
| "is_substring p (c # cs) = (prefix p (c # cs) \<or> is_substring p cs)"

text \<open>Python's \<^verbatim>\<open>key in data\<close> for a string key.\<close>

fun py_contains :: "string \<Rightarrow> json \<Rightarrow> py_exc + bool" where
  "py_contains k (JObj kvs) = Inr (map_of kvs k \<noteq> None)"
| "py_contains k (JArr xs) = Inr (JStr k \<in> set xs)"
| "py_contains k (JStr s) = Inr (is_substring k s)"
| "py_contains k JNull = Inl TypeError"
| "py_contains k (JBool b) = Inl TypeError"
| "py_contains k (JNum q) = Inl TypeError"

text \<open>Python's \<^verbatim>\<open>data[key]\<close> for a string key.\<close>

fun py_getitem :: "json \<Rightarrow> string \<Rightarrow> py_exc + json" where
  "py_getitem (JObj kvs) k = (case map_of kvs k of None \<Rightarrow> Inl (KeyError k) | Some v \<Rightarrow> Inr v)"
| "py_getitem (JArr xs) k = Inl TypeError"
| "py_getitem (JStr s) k = Inl TypeError"
| "py_getitem JNull k = Inl TypeError"
| "py_getitem (JBool b) k = Inl TypeError"
| "py_getitem (JNum q) k = Inl TypeError"

text \<open>
  The events of one call (the request, then what is printed) and its result: \<open>Inl\<close> an
  exception that leaves the function, \<open>Inr\<close> the value returned.
\<close>

definition fetch_current_weather ::
  "rat \<Rightarrow> rat \<Rightarrow> string \<Rightarrow> http_outcome \<Rightarrow> event list \<times> (py_exc + json)" where
  "fetch_current_weather lat lon tz outcome =
     (case outcome of
        RequestFailed msg \<Rightarrow>
          ([HttpGet lat lon tz, Print (ApiRequestError lat lon msg)], Inr JNull)
      | Responded status text body \<Rightarrow>
          if raise_for_status status
          then ([HttpGet lat lon tz, Print (ApiHttpError lat lon status text)], Inr JNull)
          else (case body of
                  None \<Rightarrow>
                    ([HttpGet lat lon tz, Print (ApiRequestError lat lon ''JSONDecodeError'')],
                     Inr JNull)
                | Some data \<Rightarrow>
                    (case py_contains ''current_weather'' data of
                       Inl e \<Rightarrow> ([HttpGet lat lon tz], Inl e)
                     | Inr True \<Rightarrow> ([HttpGet lat lon tz], py_getitem data ''current_weather'')
                     | Inr False \<Rightarrow>
                         ([HttpGet lat lon tz, Print (WarnKeyNotFound lat lon)], Inr JNull)))
      | JsonRaised status text e \<Rightarrow>
          if raise_for_status status
          then ([HttpGet lat lon tz, Print (ApiHttpError lat lon status text)], Inr JNull)
          else ([HttpGet lat lon tz], Inl e))"

section \<open>The store\<close>

datatype sqlval = SText string | SReal rat | SInt int

text \<open>A row lists its columns with their cells, in column order; \<open>None\<close> is NULL.\<close>

type_synonym sql_row = "(string \<times> sqlval option) list"

definition cell :: "sql_row \<Rightarrow> string \<Rightarrow> sqlval option" where
  "cell r c = (case map_of r c of None \<Rightarrow> None | Some v \<Rightarrow> v)"

record column =
  cname :: string
  ctype :: string
  notnull :: bool

record table =
  tname :: string
  columns :: "column list"
  primary_key :: "string list"
  rows :: "sql_row list"

text \<open>The database file: its tables, in creation order.\<close>

type_synonym database = "table list"

definition weather_columns :: "column list" where
  "weather_columns = [
     \<lparr>cname = ''timestamp'', ctype = ''TEXT'', notnull = True\<rparr>,
     \<lparr>cname = ''temperature_celsius'', ctype = ''REAL'', notnull = False\<rparr>,
     \<lparr>cname = ''windspeed_ms'', ctype = ''REAL'', notnull = False\<rparr>,
     \<lparr>cname = ''weather_code'', ctype = ''INTEGER'', notnull = False\<rparr>,
     \<lparr>cname = ''latitude'', ctype = ''REAL'', notnull = True\<rparr>,
     \<lparr>cname = ''longitude'', ctype = ''REAL'', notnull = True\<rparr>,
     \<lparr>cname = ''timezone'', ctype = ''TEXT'', notnull = False\<rparr>,
     \<lparr>cname = ''continent'', ctype = ''TEXT'', notnull = False\<rparr>,
     \<lparr>cname = ''city'', ctype = ''TEXT'', notnull = False\<rparr>,
     \<lparr>cname = ''ingestion_timestamp'', ctype = ''TEXT'', notnull = False\<rparr>]"

definition weather_key :: "string list" where
  "weather_key = [''timestamp'', ''latitude'', ''longitude'']"

definition create_table_sql :: table where
  "create_table_sql =
     \<lparr>tname = ''weather_records'', columns = weather_columns,
      primary_key = weather_key, rows = []\<rparr>"

text \<open>\<^verbatim>\<open>CREATE TABLE IF NOT EXISTS\<close>: nothing happens when a table of that name exists.\<close>

definition create_table_if_not_exists :: "table \<Rightarrow> database \<Rightarrow> database" where
  "create_table_if_not_exists t db =
     (if tname t \<in> set (map tname db) then db else db @ [t])"

text \<open>
  \<open>fault\<close> is what the storage layer does to the statement for reasons outside the
  program (file locked, disk full, not a database): \<open>Some msg\<close> is the
  \<^verbatim>\<open>sqlite3.Error\<close> raised, \<open>None\<close> lets the statement run.
\<close>

definition create_weather_table :: "string option \<Rightarrow> database \<Rightarrow> event list \<times> database" where
  "create_weather_table fault conn =
     (case fault of
        None \<Rightarrow> ([Print TableProcessed], create_table_if_not_exists create_table_sql conn)
      | Some msg \<Rightarrow> ([Print (ErrorCreatingTable msg)], conn))"

text \<open>
  Two rows collide on a key when every key column holds the same non-NULL cell in both
  (SQLite never takes NULLs as equal).
\<close>

definition key_collides :: "string list \<Rightarrow> sql_row \<Rightarrow> sql_row \<Rightarrow> bool" where
  "key_collides key r r' = (\<forall>c \<in> set key. cell r c \<noteq> None \<and> cell r c = cell r' c)"

text \<open>
  One \<^verbatim>\<open>INSERT\<close>: the columns must exist, then the NOT NULL constraints, then the
  primary key.
\<close>

definition insert_row :: "table \<Rightarrow> sql_row \<Rightarrow> py_exc + table" where
  "insert_row t r =
     (if \<not> set (map fst r) \<subseteq> set (map cname (columns t))
      then Inl (SqliteError ''no such column'')
      else if \<exists>c \<in> set (columns t). notnull c \<and> cell r (cname c) = None
      then Inl (IntegrityError NotNullViolation)
      else if primary_key t \<noteq> [] \<and> (\<exists>r' \<in> set (rows t). key_collides (primary_key t) r r')
      then Inl (IntegrityError UniqueViolation)
      else Inr (t\<lparr>rows := rows t @ [r]\<rparr>))"

text \<open>The rows of one \<^verbatim>\<open>executemany\<close>, stopping at the first that fails.\<close>

fun insert_rows :: "table \<Rightarrow> sql_row list \<Rightarrow> py_exc + table" where
  "insert_rows t [] = Inr t"
| "insert_rows t (r # rs) =
     (case insert_row t r of Inl e \<Rightarrow> Inl e | Inr t' \<Rightarrow> insert_rows t' rs)"

fun replace_table :: "table \<Rightarrow> database \<Rightarrow> database" where
  "replace_table t [] = []"
| "replace_table t (u # db) = (if tname u = tname t then t # db else u # replace_table t db)"

text \<open>
  The table pandas creates by itself when \<^verbatim>\<open>to_sql\<close> finds none of that name: the
  frame's columns, no constraint.
\<close>

definition pandas_table :: "string \<Rightarrow> sql_row list \<Rightarrow> table" where
  "pandas_table name frame =
     \<lparr>tname = name,
      columns = (case frame of [] \<Rightarrow> []
                 | r # _ \<Rightarrow> map (\<lambda>(c, v). \<lparr>cname = c, ctype = '''', notnull = False\<rparr>) r),
      primary_key = [], rows = []\<rparr>"

text \<open>
  \<^verbatim>\<open>DataFrame.to_sql(name, conn, if_exists='append', index=False)\<close>: one transaction,
  committed when every row went in, rolled back (the database as it was) when one
  failed. \<open>fault\<close> is a failure from outside, as above: the exception that leaves
  \<^verbatim>\<open>to_sql\<close> for it. A constraint that a row violates makes SQLite raise
  \<^verbatim>\<open>sqlite3.IntegrityError\<close>; what leaves \<^verbatim>\<open>to_sql\<close> then depends on the pandas
  installed, and the source pins no version: pandas before 3.0 lets the exception
  through as it is (\<open>wraps = False\<close>), pandas 3.0 and later raises
  \<^verbatim>\<open>pandas.errors.DatabaseError\<close> from it (\<open>wraps = True\<close>).
\<close>

definition raised :: "bool \<Rightarrow> py_exc \<Rightarrow> py_exc" where
  "raised wraps e = (if wraps then DatabaseError e else e)"

definition to_sql ::
  "bool \<Rightarrow> sql_row list \<Rightarrow> string \<Rightarrow> py_exc option \<Rightarrow> database \<Rightarrow> py_exc + database" where
  "to_sql wraps frame name fault conn =
     (case fault of
        Some e \<Rightarrow> Inl e
      | None \<Rightarrow>
          (case find (\<lambda>t. tname t = name) conn of
             None \<Rightarrow>
               (case insert_rows (pandas_table name frame) frame of
                  Inl e \<Rightarrow> Inl (raised wraps e)
                | Inr t' \<Rightarrow> Inr (conn @ [t']))
           | Some t \<Rightarrow>
               (case insert_rows t frame of
                  Inl e \<Rightarrow> Inl (raised wraps e)
                | Inr t' \<Rightarrow> Inr (replace_table t' conn))))"

section \<open>pandas\<close>

text \<open>
  The pandas installed, taken as a parameter: \<open>'t\<close> is the datetime type.
  \<open>to_datetime\<close> and \<open>to_numeric\<close> are the calls with \<^verbatim>\<open>errors='coerce'\<close> on
  one cell: \<open>None\<close> is NaT, respectively NaN. \<open>wraps_errors\<close> tells whether
  \<^verbatim>\<open>to_sql\<close> raises its own \<^verbatim>\<open>DatabaseError\<close> from the exception of a failed
  insert (pandas 3.0 and later) or lets it through (before 3.0).
\<close>

record 't pandas =
  to_datetime :: "json \<Rightarrow> 't option"
  to_numeric :: "json \<Rightarrow> rat option"
  strftime :: "string \<Rightarrow> 't \<Rightarrow> string"
  wraps_errors :: bool

text \<open>A whole number that a signed 64-bit integer holds.\<close>

definition int64_whole :: "rat \<Rightarrow> bool" where
  "int64_whole q = (of_int \<lfloor>q\<rfloor> = q \<and> - (2 ^ 63) \<le> \<lfloor>q\<rfloor> \<and> \<lfloor>q\<rfloor> < 2 ^ 63)"

text \<open>
  \<^verbatim>\<open>.astype('Int64')\<close> on the result of \<open>to_numeric\<close>: NaN becomes <NA>, a whole
  number within the 64-bit range the integer, and any other number (a fractional one,
  one out of the range) raises TypeError (cannot safely cast).
\<close>

definition astype_Int64 :: "rat option \<Rightarrow> py_exc + int option" where
  "astype_Int64 v =
     (case v of
        None \<Rightarrow> Inr None
      | Some q \<Rightarrow> if int64_whole q then Inr (Some \<lfloor>q\<rfloor>) else Inl TypeError)"

text \<open>A row of the frame \<^verbatim>\<open>df_to_store\<close>, one field for each of its ten columns.\<close>

record 't weather_record =
  timestamp :: "'t option"
  temperature_celsius :: "rat option"
  windspeed_ms :: "rat option"
  weather_code :: "int option"
  rec_latitude :: rat
  rec_longitude :: rat
  rec_timezone :: string
  rec_continent :: string
  rec_city :: string
  ingestion_timestamp :: 't

section \<open>store_weather_data\<close>

text \<open>
  Both datetime columns are formatted to text (a NaT stays a missing value, which
  \<^verbatim>\<open>to_sql\<close> writes as NULL); the other cells go in as they are.
\<close>

definition sql_row_of :: "'t pandas \<Rightarrow> 't weather_record \<Rightarrow> sql_row" where
  "sql_row_of P r =
     [(''timestamp'',
         map_option (\<lambda>t. SText (strftime P ''%Y-%m-%dT%H:%M:%S'' t)) (timestamp r)),
      (''temperature_celsius'', map_option SReal (temperature_celsius r)),
      (''windspeed_ms'', map_option SReal (windspeed_ms r)),
      (''weather_code'', map_option SInt (weather_code r)),
      (''latitude'', Some (SReal (rec_latitude r))),
      (''longitude'', Some (SReal (rec_longitude r))),
      (''timezone'', Some (SText (rec_timezone r))),
      (''continent'', Some (SText (rec_continent r))),
      (''city'', Some (SText (rec_city r))),
      (''ingestion_timestamp'',
         Some (SText (strftime P ''%Y-%m-%dT%H:%M:%S.%f'' (ingestion_timestamp r))))]"

definition store_weather_data ::
  "'t pandas \<Rightarrow> 't weather_record list \<Rightarrow> py_exc option \<Rightarrow> database \<Rightarrow> event list \<times> database" where
  "store_weather_data P data_frame fault conn =
     (if data_frame = [] then ([], conn)
      else (case to_sql (wraps_errors P) (map (sql_row_of P) data_frame)
                   ''weather_records'' fault conn of
              Inr conn' \<Rightarrow> ([], conn')
            | Inl (IntegrityError k) \<Rightarrow> ([], conn)
            | Inl (SqliteError msg) \<Rightarrow> ([Print (ErrorStoringData msg)], conn)
            | Inl e \<Rightarrow> ([Print (UnexpectedStorageError e)], conn)))"

section \<open>main\<close>

text \<open>Python's truth value of what \<open>fetch_current_weather\<close> returned.\<close>

fun truthy :: "json \<Rightarrow> bool" where
  "truthy JNull = False"
| "truthy (JBool b) = b"
| "truthy (JNum q) = (q \<noteq> 0)"
| "truthy (JStr s) = (s \<noteq> [])"
| "truthy (JArr xs) = (xs \<noteq> [])"
| "truthy (JObj kvs) = (kvs \<noteq> [])"

text \<open>
  Lines 139 to 157 of \<^verbatim>\<open>main\<close>: the frame \<^verbatim>\<open>df_to_store\<close> built from the value
  fetched, the location and the clock. The item assignments raise TypeError on anything
  but a dict; \<^verbatim>\<open>df['time']\<close> and the three lookups after it raise KeyError on a
  missing key, in this order; the six keys assigned from the location and the clock are
  none of the four read, so the four are read from the fetched dict.
\<close>

definition normalize ::
  "'t pandas \<Rightarrow> json \<Rightarrow> location \<Rightarrow> 't \<Rightarrow> py_exc + 't weather_record list" where
  "normalize P current_weather_data loc now =
     (case current_weather_data of
        JObj kvs \<Rightarrow>
          (case map_of kvs ''time'' of
             None \<Rightarrow> Inl (KeyError ''time'')
           | Some t \<Rightarrow>
          (case map_of kvs ''temperature'' of
             None \<Rightarrow> Inl (KeyError ''temperature'')
           | Some temp \<Rightarrow>
          (case map_of kvs ''windspeed'' of
             None \<Rightarrow> Inl (KeyError ''windspeed'')
           | Some wind \<Rightarrow>
          (case map_of kvs ''weathercode'' of
             None \<Rightarrow> Inl (KeyError ''weathercode'')
           | Some code \<Rightarrow>
          (case astype_Int64 (to_numeric P code) of
             Inl e \<Rightarrow> Inl e
           | Inr wc \<Rightarrow>
               Inr [\<lparr>timestamp = to_datetime P t,
                     temperature_celsius = to_numeric P temp,
                     windspeed_ms = to_numeric P wind,
                     weather_code = wc,
                     rec_latitude = latitude loc,
                     rec_longitude = longitude loc,
                     rec_timezone = timezone loc,
                     rec_continent = continent loc,
                     rec_city = city loc,
                     ingestion_timestamp = now\<rparr>])))))
      | _ \<Rightarrow> Inl TypeError)"

text \<open>
  What one iteration of the loop meets outside the program: the outcome of its request,
  the clock, and the storage fault (if any) of its insert.
\<close>

record 't world =
  http :: http_outcome
  clock :: 't
  storage_fault :: "py_exc option"

record loop_state =
  conn :: database
  out :: "event list"
  records_processed :: nat

text \<open>
  The \<^verbatim>\<open>for\<close> loop, from iteration \<open>i\<close> on. The first component is the exception
  that left the loop, if one did; the state is the one reached when it was raised.
\<close>

fun process_locations ::
  "'t pandas \<Rightarrow> (nat \<Rightarrow> 't world) \<Rightarrow> nat \<Rightarrow> location list \<Rightarrow> loop_state
     \<Rightarrow> py_exc option \<times> loop_state" where
  "process_locations P w i [] st = (None, st)"
| "process_locations P w i (loc # locs) st =
     (case fetch_current_weather (latitude loc) (longitude loc) (timezone loc) (http (w i)) of
        (ev, Inl e) \<Rightarrow> (Some e, st\<lparr>out := out st @ ev\<rparr>)
      | (ev, Inr current_weather_data) \<Rightarrow>
          (let st1 = st\<lparr>out := out st @ ev @ [Sleep 0.1]\<rparr> in
           if truthy current_weather_data
           then (case normalize P current_weather_data loc (clock (w i)) of
                   Inl e \<Rightarrow> (Some e, st1)
                 | Inr df_to_store \<Rightarrow>
                     (case store_weather_data P df_to_store (storage_fault (w i)) (conn st1) of
                        (ev2, conn') \<Rightarrow>
                          process_locations P w (Suc i) locs
                            (st1\<lparr>conn := conn', out := out st1 @ ev2,
                                 records_processed := Suc (records_processed st1)\<rparr>)))
           else process_locations P w (Suc i) locs
                  (st1\<lparr>out := out st1 @ [Print (SkippingStorage (city loc))]\<rparr>)))"

text \<open>The environment of one run.\<close>

record 't run_env =
  connect_fault :: "string option"
  create_fault :: "string option"
  iteration :: "nat \<Rightarrow> 't world"

datatype connection = NotOpened | Opened | Closed

record outcome =
  db :: database
  events :: "event list"
  connection :: connection

text \<open>
  The \<^verbatim>\<open>try\<close> block of \<^verbatim>\<open>main\<close> over a registry: the exception that left it (if
  any), the connection (\<open>NotOpened\<close> is \<^verbatim>\<open>conn = None\<close>), the database and the
  events.
\<close>

definition try_block ::
  "'t pandas \<Rightarrow> location list \<Rightarrow> 't run_env \<Rightarrow> database
     \<Rightarrow> py_exc option \<times> connection \<times> loop_state" where
  "try_block P locs env file =
     (case connect_fault env of
        Some msg \<Rightarrow>
          (Some (SqliteError msg), NotOpened,
           \<lparr>conn = file, out = [Print StartingPipeline], records_processed = 0\<rparr>)
      | None \<Rightarrow>
          (case create_weather_table (create_fault env) file of
             (ev, conn1) \<Rightarrow>
               (case process_locations P (iteration env) 0 locs
                       \<lparr>conn = conn1, out = [Print StartingPipeline] @ ev, records_processed = 0\<rparr> of
                  (None, st) \<Rightarrow>
                    (None, Opened,
                     st\<lparr>out := out st @ [Print (PipelineFinished (records_processed st))]\<rparr>)
                | (Some e, st) \<Rightarrow> (Some e, Opened, st))))"

text \<open>The whole of \<^verbatim>\<open>main\<close>: the \<^verbatim>\<open>try\<close> block, the handler, the \<^verbatim>\<open>finally\<close> clause.\<close>

definition run_pipeline :: "'t pandas \<Rightarrow> location list \<Rightarrow> 't run_env \<Rightarrow> database \<Rightarrow> outcome" where
  "run_pipeline P locs env file =
     (case try_block P locs env file of
        (exc, c, st) \<Rightarrow>
          (let handled = (case exc of
                            None \<Rightarrow> out st
                          | Some e \<Rightarrow> out st @ [Print (MainPipelineError e)])
           in if c = Opened
              then \<lparr>db = conn st, events = handled @ [Print ConnectionClosed], connection = Closed\<rparr>
              else \<lparr>db = conn st, events = handled, connection = c\<rparr>))"

definition main :: "'t pandas \<Rightarrow> 't run_env \<Rightarrow> database \<Rightarrow> outcome" where
  "main P env file = run_pipeline P LOCATIONS env file"

section \<open>Notions the properties are stated with\<close>

definition weather_table :: "database \<Rightarrow> table option" where
  "weather_table d = find (\<lambda>t. tname t = ''weather_records'') d"

definition stored_rows :: "database \<Rightarrow> sql_row list" where
  "stored_rows d = (case weather_table d of None \<Rightarrow> [] | Some t \<Rightarrow> rows t)"

text \<open>The cells of the tuple (timestamp, latitude, longitude) of a row.\<close>

definition key_of :: "sql_row \<Rightarrow> sqlval option \<times> sqlval option \<times> sqlval option" where
  "key_of r = (cell r ''timestamp'', cell r ''latitude'', cell r ''longitude'')"

text \<open>The table exists as \<open>create_weather_table\<close> declares it.\<close>

definition conformant :: "database \<Rightarrow> bool" where
  "conformant d =
     (case weather_table d of
        None \<Rightarrow> False
      | Some t \<Rightarrow> columns t = weather_columns \<and> primary_key t = weather_key)"

definition table_count :: "database \<Rightarrow> nat" where
  "table_count d = length (filter (\<lambda>t. tname t = ''weather_records'') d)"

text \<open>The requests and the pauses among the events, in order.\<close>

fun is_request_or_pause :: "event \<Rightarrow> bool" where
  "is_request_or_pause (HttpGet lat lon tz) = True"
| "is_request_or_pause (Sleep d) = True"
| "is_request_or_pause (Print l) = False"

fun is_request :: "event \<Rightarrow> bool" where
  "is_request (HttpGet lat lon tz) = True"
| "is_request (Sleep d) = False"
| "is_request (Print l) = False"

fun is_pause :: "event \<Rightarrow> bool" where
  "is_pause (Sleep d) = True"
| "is_pause (HttpGet lat lon tz) = False"
| "is_pause (Print l) = False"

definition request_of :: "location \<Rightarrow> event" where
  "request_of loc = HttpGet (latitude loc) (longitude loc) (timezone loc)"

text \<open>What the fetch of iteration \<open>i\<close> for \<open>loc\<close> gives back.\<close>

definition fetched :: "(nat \<Rightarrow> 't world) \<Rightarrow> nat \<Rightarrow> location \<Rightarrow> py_exc + json" where
  "fetched w i loc =
     snd (fetch_current_weather (latitude loc) (longitude loc) (timezone loc) (http (w i)))"

text \<open>Iteration \<open>i\<close> lets an exception out of the loop body.\<close>

definition raises :: "'t pandas \<Rightarrow> (nat \<Rightarrow> 't world) \<Rightarrow> nat \<Rightarrow> location \<Rightarrow> bool" where
  "raises P w i loc =
     (case fetched w i loc of
        Inl e \<Rightarrow> True
      | Inr v \<Rightarrow> truthy v \<and> (case normalize P v loc (clock (w i)) of Inl e \<Rightarrow> True | Inr df \<Rightarrow> False))"

fun no_raise :: "'t pandas \<Rightarrow> (nat \<Rightarrow> 't world) \<Rightarrow> nat \<Rightarrow> location list \<Rightarrow> bool" where
  "no_raise P w i [] = True"
| "no_raise P w i (loc # locs) = (\<not> raises P w i loc \<and> no_raise P w (Suc i) locs)"

text \<open>The fetch of iteration \<open>i\<close> returned a value that counts as present.\<close>

definition present :: "(nat \<Rightarrow> 't world) \<Rightarrow> nat \<Rightarrow> location \<Rightarrow> bool" where
  "present w i loc = (case fetched w i loc of Inl e \<Rightarrow> False | Inr v \<Rightarrow> truthy v)"

text \<open>
  The frames handed to \<open>store_weather_data\<close> from iteration \<open>i\<close> on, each with the
  storage fault of its iteration, in order.
\<close>

fun produced ::
  "'t pandas \<Rightarrow> (nat \<Rightarrow> 't world) \<Rightarrow> nat \<Rightarrow> location list
     \<Rightarrow> ('t weather_record list \<times> py_exc option) list" where
  "produced P w i [] = []"
| "produced P w i (loc # locs) =
     (case fetched w i loc of
        Inl e \<Rightarrow> []
      | Inr v \<Rightarrow>
          if truthy v
          then (case normalize P v loc (clock (w i)) of
                  Inl e \<Rightarrow> []
                | Inr df \<Rightarrow> [(df, storage_fault (w i))])
          else [])
     @ produced P w (Suc i) locs"

text \<open>The cities of the locations skipped from iteration \<open>i\<close> on, in order.\<close>

fun skipped :: "(nat \<Rightarrow> 't world) \<Rightarrow> nat \<Rightarrow> location list \<Rightarrow> string list" where
  "skipped w i [] = []"
| "skipped w i (loc # locs) =
     (if present w i loc then [] else [city loc]) @ skipped w (Suc i) locs"

fun skip_warnings :: "event list \<Rightarrow> string list" where
  "skip_warnings [] = []"
| "skip_warnings (Print (SkippingStorage c) # es) = c # skip_warnings es"
| "skip_warnings (e # es) = skip_warnings es"

text \<open>The appends of a list of frames, one after the other.\<close>

definition store_all ::
  "'t pandas \<Rightarrow> ('t weather_record list \<times> py_exc option) list \<Rightarrow> database \<Rightarrow> database" where
  "store_all P fs d = foldl (\<lambda>d (df, fault). snd (store_weather_data P df fault d)) d fs"

definition keys_unique :: "database \<Rightarrow> bool" where
  "keys_unique d = distinct (map key_of (stored_rows d))"

definition keys_nonnull :: "database \<Rightarrow> bool" where
  "keys_nonnull d =
     list_all (\<lambda>r. cell r ''timestamp'' \<noteq> None \<and> cell r ''latitude'' \<noteq> None
                   \<and> cell r ''longitude'' \<noteq> None) (stored_rows d)"

text \<open>
  The table is there as declared, or it is absent and this run's creation goes through.
\<close>

definition schema_ready :: "'t run_env \<Rightarrow> database \<Rightarrow> bool" where
  "schema_ready env file =
     (conformant file \<or> (weather_table file = None \<and> create_fault env = None))"

text \<open>One call of the schema creation that the storage layer lets through.\<close>

definition ensure_schema :: "database \<Rightarrow> database" where
  "ensure_schema d = snd (create_weather_table None d)"

text \<open>The locations, from iteration \<open>i\<close> on, whose fetch returned a present value.\<close>

fun present_locations :: "(nat \<Rightarrow> 't world) \<Rightarrow> nat \<Rightarrow> location list \<Rightarrow> location list" where
  "present_locations w i [] = []"
| "present_locations w i (loc # locs) =
     (if present w i loc then [loc] else []) @ present_locations w (Suc i) locs"

fun summaries :: "event list \<Rightarrow> nat list" where
  "summaries [] = []"
| "summaries (Print (PipelineFinished n) # es) = n # summaries es"
| "summaries (e # es) = summaries es"

fun main_errors :: "event list \<Rightarrow> py_exc list" where
  "main_errors [] = []"
| "main_errors (Print (MainPipelineError e) # es) = e # main_errors es"
| "main_errors (e # es) = main_errors es"

text \<open>
  An observation the normalisation goes through with: a dict with the four measurement
  keys whose weather code is not numeric or is a whole number within the 64-bit range.
\<close>

definition complete_observation :: "'t pandas \<Rightarrow> json \<Rightarrow> bool" where
  "complete_observation P v =
     (case v of
        JObj kvs \<Rightarrow>
          map_of kvs ''time'' \<noteq> None \<and> map_of kvs ''temperature'' \<noteq> None
          \<and> map_of kvs ''windspeed'' \<noteq> None
          \<and> (case map_of kvs ''weathercode'' of
                None \<Rightarrow> False
              | Some code \<Rightarrow> (case to_numeric P code of
                               None \<Rightarrow> True | Some q \<Rightarrow> int64_whole q))
      | _ \<Rightarrow> False)"

text \<open>
  The outcomes of a request the program is written for: a transport failure, an error
  status (400 to 599), a body that is not JSON (with \<^verbatim>\<open>response.json()\<close> raising a
  \<^verbatim>\<open>RequestException\<close>), and a JSON object that lacks the current-conditions field
  or holds there an empty value or a complete observation.
\<close>

definition anticipated :: "'t pandas \<Rightarrow> http_outcome \<Rightarrow> bool" where
  "anticipated P outcome =
     (case outcome of
        RequestFailed msg \<Rightarrow> True
      | Responded status text body \<Rightarrow>
          raise_for_status status
          \<or> (case body of
                None \<Rightarrow> True
              | Some (JObj kvs) \<Rightarrow>
                  (case map_of kvs ''current_weather'' of
                     None \<Rightarrow> True
                   | Some v \<Rightarrow> \<not> truthy v \<or> complete_observation P v)
              | Some other \<Rightarrow> False)
      | JsonRaised status text e \<Rightarrow> raise_for_status status)"

text \<open>
  What \<open>store_weather_data\<close> prints when a constraint rejects the insert: nothing when
  pandas lets the \<^verbatim>\<open>sqlite3.IntegrityError\<close> through to the handler that discards it,
  the entry of the last handler when pandas raises its own error from it.
\<close>

definition rejection_log :: "'t pandas \<Rightarrow> integrity \<Rightarrow> event list" where
  "rejection_log P k =
     (if wraps_errors P
      then [Print (UnexpectedStorageError (DatabaseError (IntegrityError k)))]
      else [])"

text \<open>The state in which the loop starts once the connection is open.\<close>

definition start_state :: "'t run_env \<Rightarrow> database \<Rightarrow> loop_state" where
  "start_state env file =
     \<lparr>conn = snd (create_weather_table (create_fault env) file),
      out = [Print StartingPipeline] @ fst (create_weather_table (create_fault env) file),
      records_processed = 0\<rparr>"

section \<open>A stand-in for pandas, to run the model on examples\<close>

text \<open>
  Datetimes are the texts \<^verbatim>\<open>YYYY-MM-DDTHH:MM\<close> the API sends; a JSON number is numeric,
  a text is numeric when it is a run of digits, anything else is not; \<^verbatim>\<open>to_sql\<close> lets
  exceptions through, as pandas before 3.0 does.
\<close>

definition is_digits :: "string \<Rightarrow> bool" where
  "is_digits s = (s \<noteq> [] \<and> list_all (\<lambda>c. c \<in> set ''0123456789'') s)"

definition iso_minute :: "string \<Rightarrow> bool" where
  "iso_minute s =
     (length s = 16 \<and> is_digits (take 4 s) \<and> take 1 (drop 4 s) = ''-''
      \<and> is_digits (take 2 (drop 5 s)) \<and> take 1 (drop 7 s) = ''-''
      \<and> is_digits (take 2 (drop 8 s)) \<and> take 1 (drop 10 s) = ''T''
      \<and> is_digits (take 2 (drop 11 s)) \<and> take 1 (drop 13 s) = '':''
      \<and> is_digits (take 2 (drop 14 s)))"

definition nat_of_digits :: "string \<Rightarrow> nat" where
  "nat_of_digits s = foldl (\<lambda>n c. 10 * n + (of_char c - 48)) 0 s"

definition sample_pandas :: "string pandas" where
  "sample_pandas =
     \<lparr>to_datetime = (\<lambda>j. case j of JStr s \<Rightarrow> if iso_minute s then Some s else None | _ \<Rightarrow> None),
      to_numeric = (\<lambda>j. case j of
                          JNum q \<Rightarrow> Some q
                        | JStr s \<Rightarrow> if is_digits s then Some (of_nat (nat_of_digits s)) else None
                        | _ \<Rightarrow> None),
      strftime = (\<lambda>fmt t. if fmt = ''%Y-%m-%dT%H:%M:%S'' then t @ '':00'' else t @ '':00.000000''),
      wraps_errors = False\<rparr>"

text \<open>The same with the \<^verbatim>\<open>to_sql\<close> of pandas 3.0.\<close>

definition wrapping_pandas :: "string pandas" where
  "wrapping_pandas = sample_pandas\<lparr>wraps_errors := True\<rparr>"

definition observation :: "string \<Rightarrow> json" where
  "observation t =
     JObj [(''time'', JStr t), (''temperature'', JNum 21.5), (''windspeed'', JNum 3),
           (''weathercode'', JNum 2)]"

definition ok_response :: "json \<Rightarrow> http_outcome" where
  "ok_response obs = Responded 200 ''OK'' (Some (JObj [(''current_weather'', obs)]))"

definition calm :: "http_outcome \<Rightarrow> string world" where
  "calm h = \<lparr>http = h, clock = ''2024-05-01T10:07'', storage_fault = None\<rparr>"

definition paris :: location where
  "paris = \<lparr>latitude = 48.8566, longitude = 2.3522, timezone = ''Europe/Paris'',
            continent = ''Europe'', city = ''Paris''\<rparr>"

definition tokyo :: location where
  "tokyo = \<lparr>latitude = 35.6895, longitude = 139.6917, timezone = ''Asia/Tokyo'',
            continent = ''Asia'', city = ''Tokyo''\<rparr>"

text \<open>A run in which the storage layer and the connection work.\<close>

definition steady :: "(nat \<Rightarrow> string world) \<Rightarrow> string run_env" where
  "steady w = \<lparr>connect_fault = None, create_fault = None, iteration = w\<rparr>"

definition partial_observation :: json where
  "partial_observation =
     JObj [(''temperature'', JNum 21.5), (''windspeed'', JNum 3), (''weathercode'', JNum 2)]"

text \<open>Worlds for the examples: what each iteration meets.\<close>

definition all_well :: "nat \<Rightarrow> string world" where
  "all_well i = calm (ok_response (observation ''2024-05-01T10:00''))"

definition null_body :: "nat \<Rightarrow> string world" where
  "null_body i = calm (Responded 200 ''null'' (Some JNull))"

definition first_partial :: "nat \<Rightarrow> string world" where
  "first_partial i = (if i = 0 then calm (ok_response partial_observation) else all_well i)"

definition first_fails :: "nat \<Rightarrow> string world" where
  "first_fails i =
     (if i = 0 then calm (Responded 500 ''Internal Server Error'' None) else all_well i)"

text \<open>The record the example observation normalises to.\<close>

definition sample_record :: "location \<Rightarrow> string \<Rightarrow> string weather_record" where
  "sample_record loc now =
     \<lparr>timestamp = Some ''2024-05-01T10:00'', temperature_celsius = Some 21.5,
      windspeed_ms = Some 3, weather_code = Some 2,
      rec_latitude = latitude loc, rec_longitude = longitude loc,
      rec_timezone = timezone loc, rec_continent = continent loc,
      rec_city = city loc, ingestion_timestamp = now\<rparr>"

text \<open>A second run, some minutes later, that meets the same responses.\<close>

definition later :: "nat \<Rightarrow> string world" where
  "later i = (all_well i)\<lparr>clock := ''2024-05-01T10:42''\<rparr>"

section \<open>The store: what an insert can do\<close>

lemma insert_row_Inr:
  assumes "insert_row t r = Inr t'"
  shows "t' = t\<lparr>rows := rows t @ [r]\<rparr>"
    and "\<forall>c \<in> set (columns t). notnull c \<longrightarrow> cell r (cname c) \<noteq> None"
    and "primary_key t \<noteq> [] \<longrightarrow> (\<forall>r' \<in> set (rows t). \<not> key_collides (primary_key t) r r')"
  using assms by (auto simp: insert_row_def split: if_splits)

lemma weather_notnull:
  assumes "\<forall>c \<in> set weather_columns. notnull c \<longrightarrow> cell r (cname c) \<noteq> None"
  shows "cell r ''timestamp'' \<noteq> None \<and> cell r ''latitude'' \<noteq> None \<and> cell r ''longitude'' \<noteq> None"
  using assms by (simp add: weather_columns_def)

lemma key_collides_weather:
  assumes "cell r ''timestamp'' \<noteq> None" "cell r ''latitude'' \<noteq> None" "cell r ''longitude'' \<noteq> None"
  shows "key_collides weather_key r r' = (key_of r = key_of r')"
  using assms by (auto simp: key_collides_def weather_key_def key_of_def)

lemma insert_rows_schema:
  "insert_rows t rs = Inr t' \<Longrightarrow>
     tname t' = tname t \<and> columns t' = columns t \<and> primary_key t' = primary_key t
     \<and> (\<exists>new. rows t' = rows t @ new \<and> set new \<subseteq> set rs)"
proof (induction rs arbitrary: t)
  case Nil
  then show ?case by simp
next
  case (Cons r rs)
  from Cons.prems obtain u where u: "insert_row t r = Inr u" and rest: "insert_rows u rs = Inr t'"
    by (auto split: sum.splits)
  from insert_row_Inr(1)[OF u] have ueq: "u = t\<lparr>rows := rows t @ [r]\<rparr>" .
  from Cons.IH[OF rest] ueq show ?case by auto
qed

lemma insert_rows_notnull:
  "insert_rows t rs = Inr t' \<Longrightarrow> columns t = weather_columns \<Longrightarrow>
   (\<forall>r \<in> set (rows t). cell r ''timestamp'' \<noteq> None \<and> cell r ''latitude'' \<noteq> None \<and> cell r ''longitude'' \<noteq> None) \<Longrightarrow>
   (\<forall>r \<in> set (rows t'). cell r ''timestamp'' \<noteq> None \<and> cell r ''latitude'' \<noteq> None \<and> cell r ''longitude'' \<noteq> None)"
proof (induction rs arbitrary: t)
  case Nil
  then show ?case by simp
next
  case (Cons r rs)
  from Cons.prems(1) obtain u where u: "insert_row t r = Inr u" and rest: "insert_rows u rs = Inr t'"
    by (auto split: sum.splits)
  from insert_row_Inr(1)[OF u] have ueq: "u = t\<lparr>rows := rows t @ [r]\<rparr>" .
  from insert_row_Inr(2)[OF u] Cons.prems(2) have "cell r ''timestamp'' \<noteq> None \<and> cell r ''latitude'' \<noteq> None \<and> cell r ''longitude'' \<noteq> None"
    using weather_notnull by simp
  with Cons.prems(3) ueq have inv: "\<forall>r \<in> set (rows u). cell r ''timestamp'' \<noteq> None \<and> cell r ''latitude'' \<noteq> None \<and> cell r ''longitude'' \<noteq> None"
    by auto
  from ueq Cons.prems(2) have "columns u = weather_columns" by simp
  from Cons.IH[OF rest this inv] show ?case .
qed

lemma insert_rows_distinct:
  "insert_rows t rs = Inr t' \<Longrightarrow> columns t = weather_columns \<Longrightarrow> primary_key t = weather_key \<Longrightarrow>
   distinct (map key_of (rows t)) \<Longrightarrow> distinct (map key_of (rows t'))"
proof (induction rs arbitrary: t)
  case Nil
  then show ?case by simp
next
  case (Cons r rs)
  from Cons.prems(1) obtain u where u: "insert_row t r = Inr u" and rest: "insert_rows u rs = Inr t'"
    by (auto split: sum.splits)
  from insert_row_Inr(1)[OF u] have ueq: "u = t\<lparr>rows := rows t @ [r]\<rparr>" .
  from insert_row_Inr(2)[OF u] Cons.prems(2)
  have nn: "cell r ''timestamp'' \<noteq> None \<and> cell r ''latitude'' \<noteq> None \<and> cell r ''longitude'' \<noteq> None"
    using weather_notnull by simp
  from insert_row_Inr(3)[OF u] Cons.prems(3)
  have "\<forall>r' \<in> set (rows t). \<not> key_collides weather_key r r'"
    by (simp add: weather_key_def)
  with nn have "\<forall>r' \<in> set (rows t). key_of r \<noteq> key_of r'"
    using key_collides_weather by blast
  with Cons.prems(4) ueq have d: "distinct (map key_of (rows u))" by auto
  from ueq Cons.prems have "columns u = weather_columns" "primary_key u = weather_key" by simp_all
  from Cons.IH[OF rest this d] show ?case .
qed

lemma weather_table_replace:
  "weather_table d = Some t \<Longrightarrow> tname t' = ''weather_records'' \<Longrightarrow>
     weather_table (replace_table t' d) = Some t'"
  by (induction d) (auto simp: weather_table_def)

lemma weather_table_name: "weather_table d = Some t \<Longrightarrow> tname t = ''weather_records''"
  by (induction d) (auto simp: weather_table_def split: if_splits)

lemma to_sql_conformant:
  assumes "weather_table d = Some t"
  shows "to_sql wraps frame ''weather_records'' fault d =
     (case fault of Some e \<Rightarrow> Inl e
      | None \<Rightarrow> (case insert_rows t frame of
                   Inl e \<Rightarrow> Inl (raised wraps e)
                 | Inr t' \<Rightarrow> Inr (replace_table t' d)))"
  using assms by (simp add: to_sql_def weather_table_def split: option.splits)

lemma store_cases:
  assumes "weather_table d = Some t"
  shows "snd (store_weather_data P df fault d) = d \<or>
         (\<exists>t'. fault = None \<and> insert_rows t (map (sql_row_of P) df) = Inr t' \<and> snd (store_weather_data P df fault d) = replace_table t' d)"
  using assms
  by (auto simp: store_weather_data_def to_sql_conformant split: option.splits sum.splits py_exc.splits)

section \<open>store_weather_data keeps the table as declared\<close>

lemma stored_rows_replace:
  "weather_table d = Some t \<Longrightarrow> tname t' = ''weather_records'' \<Longrightarrow>
     stored_rows (replace_table t' d) = rows t'"
  by (simp add: stored_rows_def weather_table_replace)

lemma conformant_replace:
  "weather_table d = Some t \<Longrightarrow> tname t' = ''weather_records'' \<Longrightarrow>
     conformant (replace_table t' d) = (columns t' = weather_columns \<and> primary_key t' = weather_key)"
  by (simp add: conformant_def weather_table_replace)

lemma conformantE:
  assumes "conformant d"
  obtains t where "weather_table d = Some t" "columns t = weather_columns" "primary_key t = weather_key"
    "tname t = ''weather_records''" "stored_rows d = rows t"
  using assms weather_table_name
  by (auto simp: conformant_def stored_rows_def split: option.splits)

lemma store_conformant:
  assumes "conformant d"
  shows "conformant (snd (store_weather_data P df fault d))"
proof -
  from assms obtain t where t: "weather_table d = Some t" "columns t = weather_columns"
      "primary_key t = weather_key" "tname t = ''weather_records''"
    by (rule conformantE)
  from store_cases[OF t(1), of P df fault] show ?thesis
  proof
    assume "snd (store_weather_data P df fault d) = d"
    with assms show ?thesis by simp
  next
    assume "\<exists>t'. fault = None \<and> insert_rows t (map (sql_row_of P) df) = Inr t' \<and>
         snd (store_weather_data P df fault d) = replace_table t' d"
    then obtain t' where ins: "insert_rows t (map (sql_row_of P) df) = Inr t'"
      and eq: "snd (store_weather_data P df fault d) = replace_table t' d" by blast
    from insert_rows_schema[OF ins] t have "tname t' = ''weather_records''"
      "columns t' = weather_columns" "primary_key t' = weather_key" by simp_all
    with eq t(1) show ?thesis by (simp add: conformant_replace)
  qed
qed

lemma store_keys_unique:
  assumes "conformant d" "keys_unique d"
  shows "keys_unique (snd (store_weather_data P df fault d))"
proof -
  from assms(1) obtain t where t: "weather_table d = Some t" "columns t = weather_columns"
      "primary_key t = weather_key" "tname t = ''weather_records''" "stored_rows d = rows t"
    by (rule conformantE)
  from store_cases[OF t(1), of P df fault] show ?thesis
  proof
    assume "snd (store_weather_data P df fault d) = d"
    with assms show ?thesis by simp
  next
    assume "\<exists>t'. fault = None \<and> insert_rows t (map (sql_row_of P) df) = Inr t' \<and>
         snd (store_weather_data P df fault d) = replace_table t' d"
    then obtain t' where ins: "insert_rows t (map (sql_row_of P) df) = Inr t'"
      and eq: "snd (store_weather_data P df fault d) = replace_table t' d" by blast
    from assms(2) t(5) have "distinct (map key_of (rows t))" by (simp add: keys_unique_def)
    from insert_rows_distinct[OF ins t(2) t(3) this] have "distinct (map key_of (rows t'))" .
    moreover from insert_rows_schema[OF ins] t have "tname t' = ''weather_records''" by simp
    ultimately show ?thesis using eq t(1) by (simp add: keys_unique_def stored_rows_replace)
  qed
qed

lemma store_keys_nonnull:
  assumes "conformant d" "keys_nonnull d"
  shows "keys_nonnull (snd (store_weather_data P df fault d))"
proof -
  from assms(1) obtain t where t: "weather_table d = Some t" "columns t = weather_columns"
      "primary_key t = weather_key" "tname t = ''weather_records''" "stored_rows d = rows t"
    by (rule conformantE)
  from store_cases[OF t(1), of P df fault] show ?thesis
  proof
    assume "snd (store_weather_data P df fault d) = d"
    with assms show ?thesis by simp
  next
    assume "\<exists>t'. fault = None \<and> insert_rows t (map (sql_row_of P) df) = Inr t' \<and>
         snd (store_weather_data P df fault d) = replace_table t' d"
    then obtain t' where ins: "insert_rows t (map (sql_row_of P) df) = Inr t'"
      and eq: "snd (store_weather_data P df fault d) = replace_table t' d" by blast
    from assms(2) t(5) have "\<forall>r \<in> set (rows t). cell r ''timestamp'' \<noteq> None \<and> cell r ''latitude'' \<noteq> None \<and> cell r ''longitude'' \<noteq> None"
      by (simp add: keys_nonnull_def list_all_iff)
    from insert_rows_notnull[OF ins t(2) this]
    have "\<forall>r \<in> set (rows t'). cell r ''timestamp'' \<noteq> None \<and> cell r ''latitude'' \<noteq> None \<and> cell r ''longitude'' \<noteq> None" .
    moreover from insert_rows_schema[OF ins] t have "tname t' = ''weather_records''" by simp
    ultimately show ?thesis using eq t(1) by (simp add: keys_nonnull_def stored_rows_replace list_all_iff)
  qed
qed

lemma store_rows_grow:
  assumes "conformant d"
  shows "set (stored_rows d) \<subseteq> set (stored_rows (snd (store_weather_data P df fault d)))"
proof -
  from assms(1) obtain t where t: "weather_table d = Some t" "columns t = weather_columns"
      "primary_key t = weather_key" "tname t = ''weather_records''" "stored_rows d = rows t"
    by (rule conformantE)
  from store_cases[OF t(1), of P df fault] show ?thesis
  proof
    assume "snd (store_weather_data P df fault d) = d"
    then show ?thesis by simp
  next
    assume "\<exists>t'. fault = None \<and> insert_rows t (map (sql_row_of P) df) = Inr t' \<and>
         snd (store_weather_data P df fault d) = replace_table t' d"
    then obtain t' where ins: "insert_rows t (map (sql_row_of P) df) = Inr t'"
      and eq: "snd (store_weather_data P df fault d) = replace_table t' d" by blast
    from insert_rows_schema[OF ins] t obtain new where "tname t' = ''weather_records''" "rows t' = rows t @ new" by auto
    then show ?thesis using eq t(1) t(5) by (simp add: stored_rows_replace)
  qed
qed

text \<open>One record appended to the table as declared.\<close>

lemma sql_row_cells:
  "cell (sql_row_of P r) ''timestamp'' = map_option (\<lambda>t. SText (strftime P ''%Y-%m-%dT%H:%M:%S'' t)) (timestamp r)"
  "cell (sql_row_of P r) ''latitude'' = Some (SReal (rec_latitude r))"
  "cell (sql_row_of P r) ''longitude'' = Some (SReal (rec_longitude r))"
  by (simp_all add: sql_row_of_def cell_def)

lemma insert_row_record:
  assumes "columns t = weather_columns" "primary_key t = weather_key"
  shows "insert_row t (sql_row_of P r) =
     (if timestamp r = None then Inl (IntegrityError NotNullViolation)
      else if key_of (sql_row_of P r) \<in> key_of ` set (rows t) then Inl (IntegrityError UniqueViolation)
      else Inr (t\<lparr>rows := rows t @ [sql_row_of P r]\<rparr>))"
proof -
  have cols: "set (map fst (sql_row_of P r)) \<subseteq> set (map cname weather_columns)"
    by (simp add: sql_row_of_def weather_columns_def)
  have nn: "(\<exists>c \<in> set weather_columns. notnull c \<and> cell (sql_row_of P r) (cname c) = None) = (timestamp r = None)"
    by (simp add: weather_columns_def sql_row_cells)
  show ?thesis
  proof (cases "timestamp r = None")
    case True
    with cols nn assms show ?thesis by (simp add: insert_row_def)
  next
    case False
    then have "\<And>r'. key_collides weather_key (sql_row_of P r) r' = (key_of (sql_row_of P r) = key_of r')"
      by (intro key_collides_weather) (auto simp: sql_row_cells)
    then have "(\<exists>r' \<in> set (rows t). key_collides weather_key (sql_row_of P r) r') = (key_of (sql_row_of P r) \<in> key_of ` set (rows t))"
      by auto
    moreover have "weather_key \<noteq> []" by (simp add: weather_key_def)
    ultimately show ?thesis using False cols nn assms by (simp add: insert_row_def)
  qed
qed

lemma store_single:
  assumes "conformant d"
  shows "store_weather_data P [r] None d =
     (if timestamp r = None then (rejection_log P NotNullViolation, d)
      else if key_of (sql_row_of P r) \<in> key_of ` set (stored_rows d)
      then (rejection_log P UniqueViolation, d)
      else ([], replace_table ((the (weather_table d))\<lparr>rows := stored_rows d @ [sql_row_of P r]\<rparr>) d))"
proof -
  from assms(1) obtain t where t: "weather_table d = Some t" "columns t = weather_columns"
      "primary_key t = weather_key" "tname t = ''weather_records''" "stored_rows d = rows t"
    by (rule conformantE)
  show ?thesis
    using t
    by (simp add: store_weather_data_def to_sql_conformant insert_row_record raised_def
        rejection_log_def)
qed

lemma store_single_rejected:
  assumes "conformant d" "timestamp r = None \<or> key_of (sql_row_of P r) \<in> key_of ` set (stored_rows d)"
  shows "snd (store_weather_data P [r] fault d) = d"
proof -
  from assms(1) obtain t where t: "weather_table d = Some t" "columns t = weather_columns"
      "primary_key t = weather_key" "tname t = ''weather_records''" "stored_rows d = rows t"
    by (rule conformantE)
  show ?thesis
    using t assms(2)
    by (auto simp add: store_weather_data_def to_sql_conformant insert_row_record raised_def
          split: option.splits py_exc.splits)
qed

lemma store_single_key_present:
  assumes "conformant d" "timestamp r \<noteq> None"
  shows "key_of (sql_row_of P r) \<in> key_of ` set (stored_rows (snd (store_weather_data P [r] None d)))"
proof -
  from assms(1) obtain t where t: "weather_table d = Some t" "columns t = weather_columns"
      "primary_key t = weather_key" "tname t = ''weather_records''" "stored_rows d = rows t"
    by (rule conformantE)
  show ?thesis
    using t assms by (auto simp add: store_single stored_rows_replace)
qed

section \<open>The loop, one iteration at a time\<close>

lemma fetch_events:
  "filter is_request_or_pause (fst (fetch_current_weather lat lon tz h)) = [HttpGet lat lon tz]"
  "filter is_request (fst (fetch_current_weather lat lon tz h)) = [HttpGet lat lon tz]"
  "skip_warnings (fst (fetch_current_weather lat lon tz h)) = []"
  "summaries (fst (fetch_current_weather lat lon tz h)) = []"
  "main_errors (fst (fetch_current_weather lat lon tz h)) = []"
  by (auto simp: fetch_current_weather_def split: http_outcome.splits option.splits sum.splits bool.splits)

lemma store_events:
  "filter is_request_or_pause (fst (store_weather_data P df fault d)) = []"
  "filter is_request (fst (store_weather_data P df fault d)) = []"
  "skip_warnings (fst (store_weather_data P df fault d)) = []"
  "summaries (fst (store_weather_data P df fault d)) = []"
  "main_errors (fst (store_weather_data P df fault d)) = []"
  by (auto simp: store_weather_data_def split: sum.splits py_exc.splits)

lemma create_events:
  "filter is_request_or_pause (fst (create_weather_table f d)) = []"
  "filter is_request (fst (create_weather_table f d)) = []"
  "skip_warnings (fst (create_weather_table f d)) = []"
  "summaries (fst (create_weather_table f d)) = []"
  "main_errors (fst (create_weather_table f d)) = []"
  by (auto simp: create_weather_table_def split: option.splits)

lemma skip_warnings_append: "skip_warnings (xs @ ys) = skip_warnings xs @ skip_warnings ys"
  by (induction xs rule: skip_warnings.induct) auto

lemma summaries_append: "summaries (xs @ ys) = summaries xs @ summaries ys"
  by (induction xs rule: summaries.induct) auto

lemma main_errors_append: "main_errors (xs @ ys) = main_errors xs @ main_errors ys"
  by (induction xs rule: main_errors.induct) auto

text \<open>One iteration, by what its fetch gives back.\<close>

lemma step_fetch_raises:
  assumes "fetched w i loc = Inl e"
  shows "process_locations P w i (loc # locs) st =
     (Some e, st\<lparr>out := out st @ fst (fetch_current_weather (latitude loc) (longitude loc) (timezone loc) (http (w i)))\<rparr>)"
  using assms by (simp add: fetched_def Let_def case_prod_beta)

lemma step_skip:
  assumes "fetched w i loc = Inr v" "\<not> truthy v"
  shows "process_locations P w i (loc # locs) st =
     process_locations P w (Suc i) locs
       (st\<lparr>out := out st @ fst (fetch_current_weather (latitude loc) (longitude loc) (timezone loc) (http (w i)))
                @ [Sleep 0.1, Print (SkippingStorage (city loc))]\<rparr>)"
  using assms by (simp add: fetched_def Let_def case_prod_beta)

lemma step_normalize_raises:
  assumes "fetched w i loc = Inr v" "truthy v" "normalize P v loc (clock (w i)) = Inl e"
  shows "process_locations P w i (loc # locs) st =
     (Some e, st\<lparr>out := out st @ fst (fetch_current_weather (latitude loc) (longitude loc) (timezone loc) (http (w i)))
                @ [Sleep 0.1]\<rparr>)"
  using assms by (simp add: fetched_def Let_def case_prod_beta)

lemma step_store:
  assumes "fetched w i loc = Inr v" "truthy v" "normalize P v loc (clock (w i)) = Inr df"
  shows "process_locations P w i (loc # locs) st =
     process_locations P w (Suc i) locs
       (st\<lparr>conn := snd (store_weather_data P df (storage_fault (w i)) (conn st)),
           out := out st @ fst (fetch_current_weather (latitude loc) (longitude loc) (timezone loc) (http (w i)))
                @ [Sleep 0.1] @ fst (store_weather_data P df (storage_fault (w i)) (conn st)),
           records_processed := Suc (records_processed st)\<rparr>)"
  using assms by (simp add: fetched_def Let_def case_prod_beta)

declare process_locations.simps(2) [simp del]

lemma step_cases:
  obtains (fetch_raises) e where "fetched w i loc = Inl e"
  | (skip) v where "fetched w i loc = Inr v" "\<not> truthy v"
  | (normalize_raises) v e where "fetched w i loc = Inr v" "truthy v" "normalize P v loc (clock (w i)) = Inl e"
  | (store) v df where "fetched w i loc = Inr v" "truthy v" "normalize P v loc (clock (w i)) = Inr df"
proof (cases "fetched w i loc")
  case (Inl e)
  then show ?thesis by (rule fetch_raises)
next
  case (Inr v)
  show ?thesis
  proof (cases "truthy v")
    case True
    show ?thesis
    proof (cases "normalize P v loc (clock (w i))")
      case (Inl e)
      with Inr True show ?thesis by (intro normalize_raises)
    next
      case (Inr df)
      with \<open>fetched w i loc = Inr v\<close> True show ?thesis by (intro store)
    qed
  next
    case False
    with Inr show ?thesis by (rule skip)
  qed
qed

lemma process_locations_invariant:
  assumes step: "\<And>df fault d. I d \<Longrightarrow> I (snd (store_weather_data P df fault d))"
    and "I (conn st)"
  shows "I (conn (snd (process_locations P w i locs st)))"
  using \<open>I (conn st)\<close>
proof (induction locs arbitrary: i st)
  case Nil
  then show ?case by simp
next
  case (Cons loc locs)
  show ?case
  proof (cases rule: step_cases[where w=w and i=i and loc=loc and P=P])
    case (fetch_raises e)
    then show ?thesis using Cons.prems by (simp add: step_fetch_raises)
  next
    case (skip v)
    then show ?thesis using Cons.prems by (simp add: step_skip Cons.IH)
  next
    case (normalize_raises v e)
    then show ?thesis using Cons.prems by (simp add: step_normalize_raises)
  next
    case (store v df)
    then show ?thesis using Cons.prems by (simp add: step_store Cons.IH step)
  qed
qed

section \<open>A pass in which no iteration raises\<close>

lemma raises_iff:
  "raises P w i loc = ((\<exists>e. fetched w i loc = Inl e) \<or>
       (\<exists>v e. fetched w i loc = Inr v \<and> truthy v \<and> normalize P v loc (clock (w i)) = Inl e))"
  by (auto simp: raises_def split: sum.splits)

lemma pass_complete:
  assumes "no_raise P w i locs"
  shows "fst (process_locations P w i locs st) = None"
    and "conn (snd (process_locations P w i locs st)) = store_all P (produced P w i locs) (conn st)"
    and "records_processed (snd (process_locations P w i locs st)) =
           records_processed st + length (produced P w i locs)"
    and "filter is_request_or_pause (out (snd (process_locations P w i locs st))) =
           filter is_request_or_pause (out st) @ concat (map (\<lambda>l. [request_of l, Sleep 0.1]) locs)"
    and "skip_warnings (out (snd (process_locations P w i locs st))) =
           skip_warnings (out st) @ skipped w i locs"
    and "summaries (out (snd (process_locations P w i locs st))) = summaries (out st)"
    and "main_errors (out (snd (process_locations P w i locs st))) = main_errors (out st)"
  using assms
proof (induction locs arbitrary: i st)
  case Nil
  {
    case 1 show ?case by simp
  next
    case 2 show ?case by (simp add: store_all_def)
  next
    case 3 show ?case by simp
  next
    case 4 show ?case by simp
  next
    case 5 show ?case by simp
  next
    case 6 show ?case by simp
  next
    case 7 show ?case by simp
  }
next
  case (Cons loc locs)
  {
    case 1
    then have nr: "\<not> raises P w i loc" and rest: "no_raise P w (Suc i) locs" by simp_all
    show ?case
    proof (cases rule: step_cases[where w=w and i=i and loc=loc and P=P])
      case (fetch_raises e) with nr show ?thesis by (simp add: raises_iff)
    next
      case (skip v) then show ?thesis using rest by (simp add: step_skip Cons.IH(1))
    next
      case (normalize_raises v e) with nr show ?thesis by (simp add: raises_iff)
    next
      case (store v df) then show ?thesis using rest by (simp add: step_store Cons.IH(1))
    qed
  next
    case 2
    then have nr: "\<not> raises P w i loc" and rest: "no_raise P w (Suc i) locs" by simp_all
    show ?case
    proof (cases rule: step_cases[where w=w and i=i and loc=loc and P=P])
      case (fetch_raises e) with nr show ?thesis by (simp add: raises_iff)
    next
      case (skip v) then show ?thesis using rest by (simp add: step_skip Cons.IH(2))
    next
      case (normalize_raises v e) with nr show ?thesis by (simp add: raises_iff)
    next
      case (store v df) then show ?thesis using rest by (simp add: step_store Cons.IH(2) store_all_def)
    qed
  next
    case 3
    then have nr: "\<not> raises P w i loc" and rest: "no_raise P w (Suc i) locs" by simp_all
    show ?case
    proof (cases rule: step_cases[where w=w and i=i and loc=loc and P=P])
      case (fetch_raises e) with nr show ?thesis by (simp add: raises_iff)
    next
      case (skip v) then show ?thesis using rest by (simp add: step_skip Cons.IH(3))
    next
      case (normalize_raises v e) with nr show ?thesis by (simp add: raises_iff)
    next
      case (store v df) then show ?thesis using rest by (simp add: step_store Cons.IH(3))
    qed
  next
    case 4
    then have nr: "\<not> raises P w i loc" and rest: "no_raise P w (Suc i) locs" by simp_all
    show ?case
    proof (cases rule: step_cases[where w=w and i=i and loc=loc and P=P])
      case (fetch_raises e) with nr show ?thesis by (simp add: raises_iff)
    next
      case (skip v) then show ?thesis using rest
        by (simp add: step_skip Cons.IH(4) fetch_events request_of_def)
    next
      case (normalize_raises v e) with nr show ?thesis by (simp add: raises_iff)
    next
      case (store v df) then show ?thesis using rest
        by (simp add: step_store Cons.IH(4) fetch_events store_events request_of_def)
    qed
  next
    case 5
    then have nr: "\<not> raises P w i loc" and rest: "no_raise P w (Suc i) locs" by simp_all
    show ?case
    proof (cases rule: step_cases[where w=w and i=i and loc=loc and P=P])
      case (fetch_raises e) with nr show ?thesis by (simp add: raises_iff)
    next
      case (skip v) then show ?thesis using rest
        by (simp add: step_skip Cons.IH(5) fetch_events skip_warnings_append present_def)
    next
      case (normalize_raises v e) with nr show ?thesis by (simp add: raises_iff)
    next
      case (store v df) then show ?thesis using rest
        by (simp add: step_store Cons.IH(5) fetch_events store_events skip_warnings_append present_def)
    qed
  next
    case 6
    then have nr: "\<not> raises P w i loc" and rest: "no_raise P w (Suc i) locs" by simp_all
    show ?case
    proof (cases rule: step_cases[where w=w and i=i and loc=loc and P=P])
      case (fetch_raises e) with nr show ?thesis by (simp add: raises_iff)
    next
      case (skip v) then show ?thesis using rest
        by (simp add: step_skip Cons.IH(6) fetch_events summaries_append)
    next
      case (normalize_raises v e) with nr show ?thesis by (simp add: raises_iff)
    next
      case (store v df) then show ?thesis using rest
        by (simp add: step_store Cons.IH(6) fetch_events store_events summaries_append)
    qed
  next
    case 7
    then have nr: "\<not> raises P w i loc" and rest: "no_raise P w (Suc i) locs" by simp_all
    show ?case
    proof (cases rule: step_cases[where w=w and i=i and loc=loc and P=P])
      case (fetch_raises e) with nr show ?thesis by (simp add: raises_iff)
    next
      case (skip v) then show ?thesis using rest
        by (simp add: step_skip Cons.IH(7) fetch_events main_errors_append)
    next
      case (normalize_raises v e) with nr show ?thesis by (simp add: raises_iff)
    next
      case (store v df) then show ?thesis using rest
        by (simp add: step_store Cons.IH(7) fetch_events store_events main_errors_append)
    qed
  }
qed

lemma produced_present:
  "no_raise P w i locs \<Longrightarrow> length (produced P w i locs) = length (present_locations w i locs)"
proof (induction locs arbitrary: i)
  case Nil
  then show ?case by simp
next
  case (Cons loc locs)
  then have nr: "\<not> raises P w i loc" and rest: "no_raise P w (Suc i) locs" by simp_all
  from nr show ?case
    by (cases rule: step_cases[where w=w and i=i and loc=loc and P=P])
       (simp_all add: raises_iff present_def Cons.IH[OF rest])
qed

lemma process_locations_append:
  assumes "no_raise P w i pre"
  shows "process_locations P w i (pre @ rest) st =
           process_locations P w (i + length pre) rest (snd (process_locations P w i pre st))"
  using assms
proof (induction pre arbitrary: i st)
  case Nil
  then show ?case by simp
next
  case (Cons loc pre)
  then have nr: "\<not> raises P w i loc" and rest: "no_raise P w (Suc i) pre" by simp_all
  from nr show ?case
    by (cases rule: step_cases[where w=w and i=i and loc=loc and P=P])
       (simp_all add: raises_iff step_skip step_store Cons.IH[OF rest])
qed

lemma astype_Int64_castable:
  assumes "case v of None \<Rightarrow> True | Some q \<Rightarrow> int64_whole q"
  shows "astype_Int64 v = Inr (map_option floor v)"
  using assms by (cases v) (simp_all add: astype_Int64_def)

lemma complete_observation_normalize:
  assumes "complete_observation P v"
  shows "\<exists>df. normalize P v loc now = Inr df"
  using assms
  by (auto simp: complete_observation_def normalize_def astype_Int64_def
           split: json.splits option.splits sum.splits)

lemma fetch_object:
  "\<not> raise_for_status status \<Longrightarrow>
     snd (fetch_current_weather lat lon tz (Responded status text (Some (JObj kvs)))) =
       (case map_of kvs ''current_weather'' of None \<Rightarrow> Inr JNull | Some v \<Rightarrow> Inr v)"
  by (cases "map_of kvs ''current_weather''") (simp_all add: fetch_current_weather_def)

lemma anticipated_no_raise:
  assumes "anticipated P (http (w i))"
  shows "\<not> raises P w i loc"
proof -
  have "\<exists>v. fetched w i loc = Inr v \<and> (\<not> truthy v \<or> complete_observation P v)"
  proof (cases "http (w i)")
    case (RequestFailed msg)
    then show ?thesis by (simp add: fetched_def fetch_current_weather_def)
  next
    case (Responded status content body)
    show ?thesis
    proof (cases "raise_for_status status")
      case True
      with Responded show ?thesis by (simp add: fetched_def fetch_current_weather_def)
    next
      case False
      show ?thesis
      proof (cases body)
        case None
        with Responded False show ?thesis by (simp add: fetched_def fetch_current_weather_def)
      next
        case (Some data)
        with Responded False assms obtain kvs where kvs: "data = JObj kvs"
          by (cases data) (simp_all add: anticipated_def)
        with Some Responded False assms show ?thesis
          by (auto simp: anticipated_def fetched_def fetch_object split: option.splits)
      qed
    qed
  next
    case (JsonRaised status content e)
    with assms show ?thesis by (simp add: anticipated_def fetched_def fetch_current_weather_def)
  qed
  then obtain v where v: "fetched w i loc = Inr v" "\<not> truthy v \<or> complete_observation P v" by blast
  then show ?thesis
    using complete_observation_normalize[of P v loc "clock (w i)"]
    by (auto simp: raises_iff)
qed

lemma anticipated_pass:
  "(\<forall>j. anticipated P (http (w j))) \<Longrightarrow> no_raise P w i locs"
  by (induction locs arbitrary: i) (simp_all add: anticipated_no_raise)

section \<open>main, by the way its try block ends\<close>

lemma run_not_connected:
  assumes "connect_fault env = Some msg"
  shows "run_pipeline P locs env file =
     \<lparr>db = file, events = [Print StartingPipeline, Print (MainPipelineError (SqliteError msg))],
      connection = NotOpened\<rparr>"
  using assms by (simp add: run_pipeline_def try_block_def)

lemma run_complete:
  assumes "connect_fault env = None"
    and "fst (process_locations P (iteration env) 0 locs (start_state env file)) = None"
  shows "run_pipeline P locs env file =
     \<lparr>db = conn (snd (process_locations P (iteration env) 0 locs (start_state env file))),
      events = out (snd (process_locations P (iteration env) 0 locs (start_state env file)))
        @ [Print (PipelineFinished (records_processed
              (snd (process_locations P (iteration env) 0 locs (start_state env file))))),
           Print ConnectionClosed],
      connection = Closed\<rparr>"
  using assms
  by (cases "process_locations P (iteration env) 0 locs (start_state env file)";
      cases "create_weather_table (create_fault env) file")
     (simp add: run_pipeline_def try_block_def start_state_def)

lemma run_aborted:
  assumes "connect_fault env = None"
    and "fst (process_locations P (iteration env) 0 locs (start_state env file)) = Some e"
  shows "run_pipeline P locs env file =
     \<lparr>db = conn (snd (process_locations P (iteration env) 0 locs (start_state env file))),
      events = out (snd (process_locations P (iteration env) 0 locs (start_state env file)))
        @ [Print (MainPipelineError e), Print ConnectionClosed],
      connection = Closed\<rparr>"
  using assms
  by (cases "process_locations P (iteration env) 0 locs (start_state env file)";
      cases "create_weather_table (create_fault env) file")
     (simp add: run_pipeline_def try_block_def start_state_def)

lemma start_state_events:
  "filter is_request_or_pause (out (start_state env file)) = []"
  "filter is_request (out (start_state env file)) = []"
  "skip_warnings (out (start_state env file)) = []"
  "summaries (out (start_state env file)) = []"
  "main_errors (out (start_state env file)) = []"
  by (simp_all add: start_state_def create_events)

lemma filter_request_pause:
  "filter is_request (concat (map (\<lambda>l. [request_of l, Sleep d]) locs)) = map request_of locs"
  "length (filter is_pause (concat (map (\<lambda>l. [request_of l, Sleep d]) locs))) = length locs"
  by (induction locs) (simp_all add: request_of_def)

lemma is_request_filter: "filter is_request (filter is_request_or_pause es) = filter is_request es"
proof (induction es)
  case Nil
  then show ?case by simp
next
  case (Cons e es)
  then show ?case by (cases e) simp_all
qed

lemma is_pause_filter: "filter is_pause (filter is_request_or_pause es) = filter is_pause es"
proof (induction es)
  case Nil
  then show ?case by simp
next
  case (Cons e es)
  then show ?case by (cases e) simp_all
qed

lemma run_pass_complete:
  assumes "connect_fault env = None" "no_raise P (iteration env) 0 locs"
  shows "db (run_pipeline P locs env file) =
           store_all P (produced P (iteration env) 0 locs) (conn (start_state env file))"
    and "filter is_request_or_pause (events (run_pipeline P locs env file)) =
           concat (map (\<lambda>l. [request_of l, Sleep 0.1]) locs)"
    and "skip_warnings (events (run_pipeline P locs env file)) = skipped (iteration env) 0 locs"
    and "summaries (events (run_pipeline P locs env file)) =
           [length (produced P (iteration env) 0 locs)]"
    and "main_errors (events (run_pipeline P locs env file)) = []"
    and "connection (run_pipeline P locs env file) = Closed"
  using assms
  by (simp_all add: run_complete pass_complete start_state_events skip_warnings_append
        summaries_append main_errors_append)
     (simp add: start_state_def)

section \<open>fetch_current_weather on the outcomes it handles\<close>

lemma fetch_current_weather_handled:
  "fetch_current_weather lat lon tz (RequestFailed msg) =
      ([HttpGet lat lon tz, Print (ApiRequestError lat lon msg)], Inr JNull)"
  "raise_for_status status \<Longrightarrow>
     fetch_current_weather lat lon tz (Responded status content body) =
      ([HttpGet lat lon tz, Print (ApiHttpError lat lon status content)], Inr JNull)"
  "\<not> raise_for_status status \<Longrightarrow> map_of kvs ''current_weather'' = Some v \<Longrightarrow>
     fetch_current_weather lat lon tz (Responded status content (Some (JObj kvs))) =
       ([HttpGet lat lon tz], Inr v)"
  "\<not> raise_for_status status \<Longrightarrow> map_of kvs ''current_weather'' = None \<Longrightarrow>
     fetch_current_weather lat lon tz (Responded status content (Some (JObj kvs))) =
       ([HttpGet lat lon tz, Print (WarnKeyNotFound lat lon)], Inr JNull)"
  by (simp_all add: fetch_current_weather_def)

section \<open>The fetch and the normalisation\<close>

text \<open>
  C4. The claim: the fetch returns the current-conditions field of a 2xx body that has
  it, logs and returns absent on a 2xx body without it, on an error status and on a
  transport failure, and never raises. On a 2xx response whose body is the JSON value
  \<^verbatim>\<open>null\<close>, the membership test \<^verbatim>\<open>'current_weather' in data\<close> raises TypeError, which
  neither handler of the function catches: the call raises, nothing is logged, and in
  \<^verbatim>\<open>main\<close> the pass ends there.
\<close>

theorem C4_fetch_raises_on_null_body:
  "fetch_current_weather lat lon tz (Responded 200 ''null'' (Some JNull)) =
     ([HttpGet lat lon tz], Inl TypeError)
   \<and> main_errors (events (run_pipeline sample_pandas [paris, tokyo] (steady null_body) []))
       = [TypeError]
   \<and> filter is_request (events (run_pipeline sample_pandas [paris, tokyo] (steady null_body) []))
       = [request_of paris]"
proof -
  have f: "\<And>lat lon tz. fetch_current_weather lat lon tz (Responded 200 ''null'' (Some JNull)) =
     ([HttpGet lat lon tz], Inl TypeError)"
    by (simp add: fetch_current_weather_def raise_for_status_def)
  have "fetched null_body 0 paris = Inl TypeError"
    by (simp add: fetched_def calm_def null_body_def f)
  from step_fetch_raises[OF this]
  have "fst (process_locations sample_pandas (iteration (steady null_body)) 0
           [paris, tokyo] (start_state (steady null_body) [])) = Some TypeError"
    and "out (snd (process_locations sample_pandas (iteration (steady null_body)) 0
           [paris, tokyo] (start_state (steady null_body) []))) =
         out (start_state (steady null_body) []) @ [request_of paris]"
    by (simp_all add: steady_def calm_def null_body_def f request_of_def)
  then show ?thesis
    using f by (simp add: run_aborted steady_def start_state_events main_errors_append request_of_def)
qed

lemma normalize_Inr:
  assumes "normalize P v loc now = Inr df"
  obtains kvs t temp wind code wc where "v = JObj kvs"
    "map_of kvs ''time'' = Some t" "map_of kvs ''temperature'' = Some temp"
    "map_of kvs ''windspeed'' = Some wind" "map_of kvs ''weathercode'' = Some code"
    "astype_Int64 (to_numeric P code) = Inr wc"
    "df = [\<lparr>timestamp = to_datetime P t, temperature_celsius = to_numeric P temp,
            windspeed_ms = to_numeric P wind, weather_code = wc,
            rec_latitude = latitude loc, rec_longitude = longitude loc,
            rec_timezone = timezone loc, rec_continent = continent loc,
            rec_city = city loc, ingestion_timestamp = now\<rparr>]"
  using assms
  by (auto simp: normalize_def split: json.splits option.splits sum.splits)

lemma sample_coercions:
  "to_datetime sample_pandas (JStr ''2024-05-01T10:00'') = Some ''2024-05-01T10:00''"
  "to_datetime sample_pandas (JStr ''soon'') = None"
  "to_numeric sample_pandas (JNum q) = Some q"
  "to_numeric sample_pandas (JStr ''n/a'') = None"
  by (simp_all add: sample_pandas_def iso_minute_def is_digits_def)

lemma int64_whole_2: "int64_whole 2"
  by (simp add: int64_whole_def)

lemma sample_astype: "astype_Int64 (Some 2) = Inr (Some 2)"
  by (simp add: astype_Int64_def int64_whole_2)

lemma sample_normalize:
  "normalize sample_pandas (observation ''2024-05-01T10:00'') loc now =
     Inr [\<lparr>timestamp = Some ''2024-05-01T10:00'', temperature_celsius = Some 21.5,
           windspeed_ms = Some 3, weather_code = Some 2,
           rec_latitude = latitude loc, rec_longitude = longitude loc,
           rec_timezone = timezone loc, rec_continent = continent loc,
           rec_city = city loc, ingestion_timestamp = now\<rparr>]"
  by (simp add: normalize_def observation_def sample_coercions sample_astype)

text \<open>
  C3. The claim: for every raw observation each field is coerced by itself, a value that
  does not coerce becomes a null instead of raising, and the other fields are
  unaffected. With an unparseable time and the numeric weather code 2.5, the cast of
  the code to Int64 raises TypeError: there is no record at all, so the null timestamp
  does not propagate and the failure of one field takes the others with it.
\<close>

theorem C3_counterexample:
  "to_datetime sample_pandas (JStr ''soon'') = None
   \<and> to_numeric sample_pandas (JNum 2.5) = Some 2.5
   \<and> normalize sample_pandas
        (JObj [(''time'', JStr ''soon''), (''temperature'', JNum 21.5), (''windspeed'', JNum 3),
               (''weathercode'', JNum 2.5)])
        paris ''2024-05-01T10:07'' = Inl TypeError"
proof -
  have "\<lfloor>2.5 :: rat\<rfloor> = 2" by (rule floor_unique) simp_all
  then have "\<not> int64_whole 2.5" by (simp add: int64_whole_def)
  then show ?thesis by (simp add: normalize_def sample_coercions astype_Int64_def)
qed

text \<open>
  C3, as the code has it. Take an observation that holds the four measurement fields and
  whose weather code is not numeric or is a whole number within the 64-bit range. It
  normalises, without raising, to one record: each measurement field is the coercion of
  its own raw field (a null where the raw value does not coerce) and the other six
  fields are the location's and the clock's. Put an unparseable time in its place: the
  result is that record with a null timestamp, and no other field moves. The same
  holds for a non-numeric temperature, a non-numeric windspeed and a non-numeric weather
  code.
\<close>

theorem C3_coercion_field_by_field:
  assumes "map_of kvs ''time'' = Some t" "map_of kvs ''temperature'' = Some temp"
    "map_of kvs ''windspeed'' = Some wind" "map_of kvs ''weathercode'' = Some code"
    and "case to_numeric P code of None \<Rightarrow> True | Some q \<Rightarrow> int64_whole q"
  shows "\<exists>r. normalize P (JObj kvs) loc now = Inr [r]
       \<and> timestamp r = to_datetime P t
       \<and> temperature_celsius r = to_numeric P temp
       \<and> windspeed_ms r = to_numeric P wind
       \<and> weather_code r = map_option floor (to_numeric P code)
       \<and> rec_latitude r = latitude loc \<and> rec_longitude r = longitude loc
       \<and> rec_timezone r = timezone loc \<and> rec_continent r = continent loc
       \<and> rec_city r = city loc \<and> ingestion_timestamp r = now
       \<and> (to_datetime P x = None \<longrightarrow>
            normalize P (JObj ((''time'', x) # kvs)) loc now = Inr [r\<lparr>timestamp := None\<rparr>])
       \<and> (to_numeric P x = None \<longrightarrow>
            normalize P (JObj ((''temperature'', x) # kvs)) loc now
              = Inr [r\<lparr>temperature_celsius := None\<rparr>]
          \<and> normalize P (JObj ((''windspeed'', x) # kvs)) loc now
              = Inr [r\<lparr>windspeed_ms := None\<rparr>]
          \<and> normalize P (JObj ((''weathercode'', x) # kvs)) loc now
              = Inr [r\<lparr>weather_code := None\<rparr>])"
proof -
  from assms(5) have c: "astype_Int64 (to_numeric P code) = Inr (map_option floor (to_numeric P code))"
    by (rule astype_Int64_castable)
  have n: "astype_Int64 None = Inr None" by (simp add: astype_Int64_def)
  show ?thesis
    using assms(1-4) c n by (simp add: normalize_def)
qed

theorem C3_witness:
  "map_of [(''time'', JStr ''2024-05-01T10:00''), (''temperature'', JNum 21.5),
           (''windspeed'', JNum 3), (''weathercode'', JNum 2)] ''weathercode'' = Some (JNum 2)
   \<and> (case to_numeric sample_pandas (JNum 2) of None \<Rightarrow> True | Some q \<Rightarrow> int64_whole q)
   \<and> to_datetime sample_pandas (JStr ''soon'') = None
   \<and> (\<exists>r. normalize sample_pandas (observation ''2024-05-01T10:00'') paris ''2024-05-01T10:07''
              = Inr [r]
          \<and> timestamp r = Some ''2024-05-01T10:00'' \<and> temperature_celsius r = Some 21.5
          \<and> weather_code r = Some 2
          \<and> normalize sample_pandas
               (JObj ((''time'', JStr ''soon'') #
                  [(''time'', JStr ''2024-05-01T10:00''), (''temperature'', JNum 21.5),
                   (''windspeed'', JNum 3), (''weathercode'', JNum 2)]))
               paris ''2024-05-01T10:07'' = Inr [r\<lparr>timestamp := None\<rparr>])"
proof -
  have h: "map_of [(''time'', JStr ''2024-05-01T10:00''), (''temperature'', JNum 21.5),
           (''windspeed'', JNum 3), (''weathercode'', JNum 2)] ''time''
             = Some (JStr ''2024-05-01T10:00'')"
    "map_of [(''time'', JStr ''2024-05-01T10:00''), (''temperature'', JNum 21.5),
           (''windspeed'', JNum 3), (''weathercode'', JNum 2)] ''temperature'' = Some (JNum 21.5)"
    "map_of [(''time'', JStr ''2024-05-01T10:00''), (''temperature'', JNum 21.5),
           (''windspeed'', JNum 3), (''weathercode'', JNum 2)] ''windspeed'' = Some (JNum 3)"
    "map_of [(''time'', JStr ''2024-05-01T10:00''), (''temperature'', JNum 21.5),
           (''windspeed'', JNum 3), (''weathercode'', JNum 2)] ''weathercode'' = Some (JNum 2)"
    by simp_all
  have c: "case to_numeric sample_pandas (JNum 2) of None \<Rightarrow> True | Some q \<Rightarrow> int64_whole q"
    by (simp add: sample_coercions int64_whole_2)
  have f: "\<lfloor>2 :: rat\<rfloor> = 2" by simp
  from C3_coercion_field_by_field[OF h c, of paris "''2024-05-01T10:07''" "JStr ''soon''"] h(4) c
  show ?thesis
    by (simp add: sample_coercions observation_def f) blast
qed

section \<open>The example worlds\<close>

lemma fetched_ok_response:
  "http (w i) = ok_response v \<Longrightarrow> fetched w i loc = Inr v"
  by (simp add: fetched_def ok_response_def fetch_current_weather_def raise_for_status_def)

lemma fetched_all_well: "fetched all_well i loc = Inr (observation ''2024-05-01T10:00'')"
  by (rule fetched_ok_response) (simp add: all_well_def calm_def)

lemma truthy_observation: "truthy (observation t)"
  by (simp add: observation_def)

lemma not_raises_all_well: "\<not> raises sample_pandas all_well i loc"
  by (simp add: raises_def fetched_all_well truthy_observation sample_normalize)

lemma no_raise_all_well: "no_raise sample_pandas all_well i locs"
  by (induction locs arbitrary: i) (simp_all add: not_raises_all_well)

lemma present_all_well: "present all_well i loc"
  by (simp add: present_def fetched_all_well truthy_observation)

lemma fetched_first_fails:
  "fetched first_fails 0 loc = Inr JNull"
  "fetched first_fails (Suc i) loc = Inr (observation ''2024-05-01T10:00'')"
proof -
  show "fetched first_fails 0 loc = Inr JNull"
    by (simp add: fetched_def first_fails_def calm_def fetch_current_weather_def raise_for_status_def)
  show "fetched first_fails (Suc i) loc = Inr (observation ''2024-05-01T10:00'')"
    by (rule fetched_ok_response) (simp add: first_fails_def all_well_def calm_def)
qed

lemma anticipated_first_fails: "anticipated sample_pandas (http (first_fails j))"
  by (simp add: anticipated_def first_fails_def all_well_def calm_def ok_response_def
      raise_for_status_def complete_observation_def observation_def sample_coercions int64_whole_2)

lemma fetched_first_partial: "fetched first_partial 0 loc = Inr partial_observation"
  by (rule fetched_ok_response) (simp add: first_partial_def calm_def)

lemma normalize_partial: "normalize P partial_observation loc now = Inl (KeyError ''time'')"
  by (simp add: normalize_def partial_observation_def)

lemma truthy_partial: "truthy partial_observation"
  by (simp add: partial_observation_def)

lemma raising_step_requests:
  assumes "raises P w i loc"
  shows "\<exists>e st'. process_locations P w i (loc # locs) st = (Some e, st')
           \<and> conn st' = conn st
           \<and> filter is_request (out st') = filter is_request (out st) @ [request_of loc]
           \<and> summaries (out st') = summaries (out st)
           \<and> main_errors (out st') = main_errors (out st)"
  using assms
  by (cases rule: step_cases[where w=w and i=i and loc=loc and P=P])
     (auto simp: raises_iff step_fetch_raises step_normalize_raises fetch_events
        summaries_append main_errors_append request_of_def)

lemma pass_requests:
  assumes "no_raise P w i locs"
  shows "filter is_request (out (snd (process_locations P w i locs st))) =
           filter is_request (out st) @ map request_of locs"
proof -
  have "filter is_request (filter is_request_or_pause (out (snd (process_locations P w i locs st)))) =
        filter is_request (filter is_request_or_pause (out st) @ concat (map (\<lambda>l. [request_of l, Sleep 0.1]) locs))"
    by (simp only: pass_complete(4)[OF assms])
  then show ?thesis
    by (simp only: is_request_filter filter_request_pause filter_append)
qed

section \<open>Requests and pauses\<close>

lemma out_grows: "prefix (out st) (out (snd (process_locations P w i locs st)))"
proof (induction locs arbitrary: i st)
  case Nil
  then show ?case by simp
next
  case (Cons loc locs)
  show ?case
  proof (cases rule: step_cases[where w=w and i=i and loc=loc and P=P])
    case (fetch_raises e)
    then show ?thesis by (simp add: step_fetch_raises)
  next
    case (skip v)
    have "prefix (out st) (out (st\<lparr>out := out st @ fst (fetch_current_weather (latitude loc) (longitude loc) (timezone loc) (http (w i)))
                @ [Sleep 0.1, Print (SkippingStorage (city loc))]\<rparr>))"
      by simp
    then show ?thesis
      unfolding step_skip[OF skip] using Cons.IH prefix_order.order_trans by blast
  next
    case (normalize_raises v e)
    then show ?thesis by (simp add: step_normalize_raises)
  next
    case (store v df)
    have "prefix (out st) (out (st\<lparr>conn := snd (store_weather_data P df (storage_fault (w i)) (conn st)),
           out := out st @ fst (fetch_current_weather (latitude loc) (longitude loc) (timezone loc) (http (w i)))
                @ [Sleep 0.1] @ fst (store_weather_data P df (storage_fault (w i)) (conn st)),
           records_processed := Suc (records_processed st)\<rparr>))"
      by simp
    then show ?thesis
      unfolding step_store[OF store] using Cons.IH prefix_order.order_trans by blast
  qed
qed

lemma pause_follows_fetch:
  assumes "fetched w i loc = Inr v"
  shows "prefix (out st @ fst (fetch_current_weather (latitude loc) (longitude loc) (timezone loc) (http (w i)))
                  @ [Sleep 0.1])
           (out (snd (process_locations P w i (loc # locs) st)))"
    and "\<not> truthy v \<Longrightarrow>
         prefix (out st @ fst (fetch_current_weather (latitude loc) (longitude loc) (timezone loc) (http (w i)))
                  @ [Sleep 0.1, Print (SkippingStorage (city loc))])
           (out (snd (process_locations P w i (loc # locs) st)))"
    and "truthy v \<Longrightarrow> normalize P v loc (clock (w i)) = Inr df \<Longrightarrow>
         prefix (out st @ fst (fetch_current_weather (latitude loc) (longitude loc) (timezone loc) (http (w i)))
                  @ [Sleep 0.1] @ fst (store_weather_data P df (storage_fault (w i)) (conn st)))
           (out (snd (process_locations P w i (loc # locs) st)))"
proof -
  let ?ev = "fst (fetch_current_weather (latitude loc) (longitude loc) (timezone loc) (http (w i)))"
  have skip: "prefix (out st @ ?ev @ [Sleep 0.1, Print (SkippingStorage (city loc))])
           (out (snd (process_locations P w i (loc # locs) st)))" if "\<not> truthy v"
  proof -
    have "prefix (out (st\<lparr>out := out st @ ?ev @ [Sleep 0.1, Print (SkippingStorage (city loc))]\<rparr>))
       (out (snd (process_locations P w (Suc i) locs
          (st\<lparr>out := out st @ ?ev @ [Sleep 0.1, Print (SkippingStorage (city loc))]\<rparr>))))"
      by (rule out_grows)
    then show ?thesis by (simp add: step_skip[OF assms that])
  qed
  have store: "prefix (out st @ ?ev @ [Sleep 0.1] @ fst (store_weather_data P df (storage_fault (w i)) (conn st)))
           (out (snd (process_locations P w i (loc # locs) st)))"
    if "truthy v" "normalize P v loc (clock (w i)) = Inr df" for df
  proof -
    let ?st = "st\<lparr>conn := snd (store_weather_data P df (storage_fault (w i)) (conn st)),
           out := out st @ ?ev @ [Sleep 0.1] @ fst (store_weather_data P df (storage_fault (w i)) (conn st)),
           records_processed := Suc (records_processed st)\<rparr>"
    have "prefix (out ?st) (out (snd (process_locations P w (Suc i) locs ?st)))"
      by (rule out_grows)
    then show ?thesis by (simp add: step_store[OF assms that])
  qed
  show "\<not> truthy v \<Longrightarrow> prefix (out st @ ?ev @ [Sleep 0.1, Print (SkippingStorage (city loc))])
           (out (snd (process_locations P w i (loc # locs) st)))"
    by (rule skip)
  show "truthy v \<Longrightarrow> normalize P v loc (clock (w i)) = Inr df \<Longrightarrow>
         prefix (out st @ ?ev @ [Sleep 0.1] @ fst (store_weather_data P df (storage_fault (w i)) (conn st)))
           (out (snd (process_locations P w i (loc # locs) st)))"
    by (rule store)
  show "prefix (out st @ ?ev @ [Sleep 0.1]) (out (snd (process_locations P w i (loc # locs) st)))"
  proof (cases "truthy v")
    case False
    have "prefix (out st @ ?ev @ [Sleep 0.1])
            (out st @ ?ev @ [Sleep 0.1, Print (SkippingStorage (city loc))])"
      by simp
    with skip[OF False] show ?thesis using prefix_order.order_trans by blast
  next
    case True
    show ?thesis
    proof (cases "normalize P v loc (clock (w i))")
      case (Inl e)
      from step_normalize_raises[OF assms True Inl] show ?thesis by simp
    next
      case (Inr df')
      have "prefix (out st @ ?ev @ [Sleep 0.1])
              (out st @ ?ev @ [Sleep 0.1] @ fst (store_weather_data P df' (storage_fault (w i)) (conn st)))"
        by simp
      with store[OF True Inr] show ?thesis using prefix_order.order_trans by blast
    qed
  qed
qed

text \<open>
  C8. The claim: a pass over N locations holds exactly N - 1 pauses, none after the final
  fetch. The code sleeps right after every fetch, the last one too: a pass over the one
  location Paris makes one request and then pauses once.
\<close>

theorem C8_counterexample:
  "filter is_request_or_pause (events (run_pipeline sample_pandas [paris] (steady all_well) []))
     = [request_of paris, Sleep 0.1]
   \<and> length (filter is_pause (events (run_pipeline sample_pandas [paris] (steady all_well) [])))
       \<noteq> length [paris] - 1"
proof -
  have c: "connect_fault (steady all_well) = None"
    and n: "no_raise sample_pandas (iteration (steady all_well)) 0 [paris]"
    using no_raise_all_well[of 0 "[paris]"] by (simp_all add: steady_def)
  have e: "filter is_request_or_pause (events (run_pipeline sample_pandas [paris] (steady all_well) []))
     = [request_of paris, Sleep 0.1]"
    using run_pass_complete(2)[OF c n] by simp
  have "filter is_pause (filter is_request_or_pause (events (run_pipeline sample_pandas [paris] (steady all_well) [])))
     = [Sleep 0.1]"
    unfolding e by (simp add: request_of_def)
  then have "filter is_pause (events (run_pipeline sample_pandas [paris] (steady all_well) [])) = [Sleep 0.1]"
    by (simp only: is_pause_filter)
  then show ?thesis using e by simp
qed

text \<open>
  C8, as the code has it. In every iteration whose fetch returns, the pause of the fixed
  0.1 s is the first event after the events of the fetch itself (its one request and
  what it logs): it comes before the skip warning of that location and before anything
  the append of that location logs. So in a pass that no exception cuts short the
  requests and the pauses alternate, starting with a request and ending with a pause: a
  pass over N locations holds exactly N pauses, one strictly between any two consecutive
  requests and one after the last.
\<close>

theorem C8_pause_after_every_fetch:
  "(connect_fault env = None \<and> no_raise P (iteration env) 0 locs \<longrightarrow>
      filter is_request_or_pause (events (run_pipeline P locs env file)) =
        concat (map (\<lambda>l. [request_of l, Sleep 0.1]) locs)
      \<and> length (filter is_pause (events (run_pipeline P locs env file))) = length locs
      \<and> filter is_request (events (run_pipeline P locs env file)) = map request_of locs)
   \<and> filter is_request_or_pause
         (fst (fetch_current_weather (latitude loc) (longitude loc) (timezone loc) (http (w i))))
       = [request_of loc]
   \<and> (fetched w i loc = Inr v \<longrightarrow>
        prefix (out st @ fst (fetch_current_weather (latitude loc) (longitude loc) (timezone loc)
                               (http (w i))) @ [Sleep 0.1])
          (out (snd (process_locations P w i (loc # rest) st))))
   \<and> (fetched w i loc = Inr v \<and> \<not> truthy v \<longrightarrow>
        prefix (out st @ fst (fetch_current_weather (latitude loc) (longitude loc) (timezone loc)
                               (http (w i))) @ [Sleep 0.1, Print (SkippingStorage (city loc))])
          (out (snd (process_locations P w i (loc # rest) st))))
   \<and> (fetched w i loc = Inr v \<and> truthy v \<and> normalize P v loc (clock (w i)) = Inr df \<longrightarrow>
        prefix (out st @ fst (fetch_current_weather (latitude loc) (longitude loc) (timezone loc)
                               (http (w i))) @ [Sleep 0.1]
                  @ fst (store_weather_data P df (storage_fault (w i)) (conn st)))
          (out (snd (process_locations P w i (loc # rest) st))))"
proof -
  have a: "filter is_request_or_pause (events (run_pipeline P locs env file)) =
        concat (map (\<lambda>l. [request_of l, Sleep 0.1]) locs)
      \<and> length (filter is_pause (events (run_pipeline P locs env file))) = length locs
      \<and> filter is_request (events (run_pipeline P locs env file)) = map request_of locs"
    if h: "connect_fault env = None" "no_raise P (iteration env) 0 locs"
  proof -
    have e: "filter is_request_or_pause (events (run_pipeline P locs env file)) =
             concat (map (\<lambda>l. [request_of l, Sleep 0.1]) locs)"
      by (rule run_pass_complete(2)[OF h])
    have "filter is_pause (filter is_request_or_pause (events (run_pipeline P locs env file))) =
          filter is_pause (concat (map (\<lambda>l. [request_of l, Sleep 0.1]) locs))"
      by (simp only: e)
    then have p: "length (filter is_pause (events (run_pipeline P locs env file))) = length locs"
      by (simp only: is_pause_filter filter_request_pause)
    have "filter is_request (filter is_request_or_pause (events (run_pipeline P locs env file))) =
          filter is_request (concat (map (\<lambda>l. [request_of l, Sleep 0.1]) locs))"
      by (simp only: e)
    then have r: "filter is_request (events (run_pipeline P locs env file)) = map request_of locs"
      by (simp only: is_request_filter filter_request_pause)
    from e p r show ?thesis by simp
  qed
  have b: "filter is_request_or_pause
         (fst (fetch_current_weather (latitude loc) (longitude loc) (timezone loc) (http (w i))))
       = [request_of loc]"
    by (simp add: fetch_events request_of_def)
  have c: "fetched w i loc = Inr v \<longrightarrow>
        prefix (out st @ fst (fetch_current_weather (latitude loc) (longitude loc) (timezone loc)
                               (http (w i))) @ [Sleep 0.1])
          (out (snd (process_locations P w i (loc # rest) st)))"
    using pause_follows_fetch(1) by blast
  have d: "fetched w i loc = Inr v \<and> \<not> truthy v \<longrightarrow>
        prefix (out st @ fst (fetch_current_weather (latitude loc) (longitude loc) (timezone loc)
                               (http (w i))) @ [Sleep 0.1, Print (SkippingStorage (city loc))])
          (out (snd (process_locations P w i (loc # rest) st)))"
    using pause_follows_fetch(2) by blast
  have e: "fetched w i loc = Inr v \<and> truthy v \<and> normalize P v loc (clock (w i)) = Inr df \<longrightarrow>
        prefix (out st @ fst (fetch_current_weather (latitude loc) (longitude loc) (timezone loc)
                               (http (w i))) @ [Sleep 0.1]
                  @ fst (store_weather_data P df (storage_fault (w i)) (conn st)))
          (out (snd (process_locations P w i (loc # rest) st)))"
    using pause_follows_fetch(3) by blast
  from a b c d e show ?thesis by blast
qed

theorem C8_witness:
  "(connect_fault (steady all_well) = None
     \<and> no_raise sample_pandas (iteration (steady all_well)) 0 [paris, tokyo])
   \<and> filter is_request_or_pause (events (run_pipeline sample_pandas [paris, tokyo] (steady all_well) []))
       = [request_of paris, Sleep 0.1, request_of tokyo, Sleep 0.1]
   \<and> length (filter is_pause (events (run_pipeline sample_pandas [paris, tokyo] (steady all_well) [])))
       = 2
   \<and> (fetched first_fails 0 paris = Inr JNull \<and> \<not> truthy JNull)
   \<and> prefix ([Print StartingPipeline]
              @ [request_of paris, Print (ApiHttpError (latitude paris) (longitude paris) 500
                                            ''Internal Server Error'')]
              @ [Sleep 0.1, Print (SkippingStorage ''Paris'')])
        (out (snd (process_locations sample_pandas first_fails 0 [paris, tokyo]
                (\<lparr>conn = [], out = [Print StartingPipeline], records_processed = 0\<rparr>))))"
proof -
  have c: "connect_fault (steady all_well) = None
     \<and> no_raise sample_pandas (iteration (steady all_well)) 0 [paris, tokyo]"
    using no_raise_all_well[of 0 "[paris, tokyo]"] by (simp add: steady_def)
  have f: "fetched first_fails 0 paris = Inr JNull \<and> \<not> truthy JNull"
    by (simp add: fetched_first_fails)
  have ev: "fst (fetch_current_weather (latitude paris) (longitude paris) (timezone paris)
              (http (first_fails 0)))
        = [request_of paris, Print (ApiHttpError (latitude paris) (longitude paris) 500
                                            ''Internal Server Error'')]"
    by (simp add: first_fails_def calm_def fetch_current_weather_def raise_for_status_def
        request_of_def)
  have city: "city paris = ''Paris''" by (simp add: paris_def)
  from C8_pause_after_every_fetch[of "steady all_well" sample_pandas "[paris, tokyo]" "[]"
      paris first_fails 0 JNull
      "\<lparr>conn = [], out = [Print StartingPipeline], records_processed = 0\<rparr>" "[tokyo]" "[]"]
    c f
  show ?thesis unfolding ev city by simp
qed


section \<open>Locations skipped, locations reached\<close>

lemma skipped_present_length:
  "length (skipped w i locs) + length (present_locations w i locs) = length locs"
  by (induction locs arbitrary: i) simp_all

lemma aborted_by_normalize:
  assumes "no_raise P w i pre" "fetched w (i + length pre) loc = Inr v" "truthy v"
    "normalize P v loc (clock (w (i + length pre))) = Inl e"
  shows "fst (process_locations P w i (pre @ loc # post) st) = Some e"
    and "filter is_request (out (snd (process_locations P w i (pre @ loc # post) st))) =
           filter is_request (out st) @ map request_of (pre @ [loc])"
    and "summaries (out (snd (process_locations P w i (pre @ loc # post) st))) = summaries (out st)"
    and "main_errors (out (snd (process_locations P w i (pre @ loc # post) st)))
           = main_errors (out st)"
proof -
  let ?mid = "snd (process_locations P w i pre st)"
  have p: "process_locations P w i (pre @ loc # post) st =
     (Some e, ?mid\<lparr>out := out ?mid @ fst (fetch_current_weather (latitude loc) (longitude loc)
                       (timezone loc) (http (w (i + length pre)))) @ [Sleep 0.1]\<rparr>)"
    by (simp only: process_locations_append[OF assms(1)] step_normalize_raises[OF assms(2,3,4)])
  show "fst (process_locations P w i (pre @ loc # post) st) = Some e"
    by (simp only: p fst_conv)
  show "filter is_request (out (snd (process_locations P w i (pre @ loc # post) st))) =
           filter is_request (out st) @ map request_of (pre @ [loc])"
    unfolding p by (simp add: pass_requests[OF assms(1)] fetch_events request_of_def)
  show "summaries (out (snd (process_locations P w i (pre @ loc # post) st))) = summaries (out st)"
    unfolding p by (simp add: pass_complete(6)[OF assms(1)] summaries_append fetch_events)
  show "main_errors (out (snd (process_locations P w i (pre @ loc # post) st)))
           = main_errors (out st)"
    unfolding p by (simp add: pass_complete(7)[OF assms(1)] main_errors_append fetch_events)
qed

text \<open>
  C5. The claim: the pass reaches every location, and no per-location failure ends it.
  With two locations, when the response for the first carries a current-conditions
  object without its \<^verbatim>\<open>time\<close> field, \<^verbatim>\<open>df['time']\<close> raises KeyError, the top-level
  handler logs it, and the second location is never requested.
\<close>

theorem C5_counterexample:
  "filter is_request (events (run_pipeline sample_pandas [paris, tokyo] (steady first_partial) []))
     = [request_of paris]
   \<and> main_errors (events (run_pipeline sample_pandas [paris, tokyo] (steady first_partial) []))
     = [KeyError ''time'']
   \<and> summaries (events (run_pipeline sample_pandas [paris, tokyo] (steady first_partial) [])) = []"
proof -
  have t: "truthy partial_observation" by (simp add: partial_observation_def)
  from step_normalize_raises[OF fetched_first_partial t normalize_partial]
  have p: "process_locations sample_pandas (iteration (steady first_partial)) 0 [paris, tokyo]
             (start_state (steady first_partial) []) =
          (Some (KeyError ''time''),
           (start_state (steady first_partial) [])\<lparr>out := out (start_state (steady first_partial) [])
              @ fst (fetch_current_weather (latitude paris) (longitude paris) (timezone paris)
                       (http (first_partial 0))) @ [Sleep 0.1]\<rparr>)"
    by (simp add: steady_def)
  have c: "connect_fault (steady first_partial) = None" by (simp add: steady_def)
  have f: "fst (process_locations sample_pandas (iteration (steady first_partial)) 0 [paris, tokyo]
             (start_state (steady first_partial) [])) = Some (KeyError ''time'')"
    by (simp only: p fst_conv)
  show ?thesis
    unfolding run_aborted[OF c f]
    by (simp add: p start_state_events fetch_events summaries_append main_errors_append request_of_def)
qed

text \<open>
  C5, as the code has it. The locations are processed in order. When every response is
  of a kind the program is written for (a transport failure, an error status, a body
  that is not JSON, a JSON object without the current-conditions field, or one holding
  there an empty value or an observation with the four measurement fields whose weather
  code is not numeric or is a whole number within the 64-bit range), then whatever the
  storage layer does to the inserts: every location of the registry is requested, in
  order; a skip warning is logged for exactly the locations whose fetch returned
  nothing, in order; the database is the result of appending the frames of the other
  locations, one per location, in order; the top-level handler logs nothing and the
  summary is printed. When the normalisation of a location's observation raises, after
  the locations before it went through, the exception is not handled for that location:
  the top-level handler logs it, no later location is requested and no summary is
  printed.
\<close>

theorem C5_pass_reaches_every_location:
  "(connect_fault env = None \<and> (\<forall>j. anticipated P (http (iteration env j))) \<longrightarrow>
      filter is_request (events (run_pipeline P locs env file)) = map request_of locs
      \<and> skip_warnings (events (run_pipeline P locs env file)) = skipped (iteration env) 0 locs
      \<and> db (run_pipeline P locs env file) =
          store_all P (produced P (iteration env) 0 locs) (conn (start_state env file))
      \<and> length (produced P (iteration env) 0 locs)
          = length (present_locations (iteration env) 0 locs)
      \<and> length (skipped (iteration env) 0 locs)
          + length (present_locations (iteration env) 0 locs) = length locs
      \<and> main_errors (events (run_pipeline P locs env file)) = []
      \<and> summaries (events (run_pipeline P locs env file))
          = [length (present_locations (iteration env) 0 locs)])
   \<and> (connect_fault env = None \<and> locs = pre @ loc # post
        \<and> no_raise P (iteration env) 0 pre
        \<and> fetched (iteration env) (length pre) loc = Inr v \<and> truthy v
        \<and> normalize P v loc (clock (iteration env (length pre))) = Inl e \<longrightarrow>
      main_errors (events (run_pipeline P locs env file)) = [e]
      \<and> filter is_request (events (run_pipeline P locs env file)) = map request_of (pre @ [loc])
      \<and> summaries (events (run_pipeline P locs env file)) = [])"
proof -
  have a: "filter is_request (events (run_pipeline P locs env file)) = map request_of locs
      \<and> skip_warnings (events (run_pipeline P locs env file)) = skipped (iteration env) 0 locs
      \<and> db (run_pipeline P locs env file) =
          store_all P (produced P (iteration env) 0 locs) (conn (start_state env file))
      \<and> length (produced P (iteration env) 0 locs)
          = length (present_locations (iteration env) 0 locs)
      \<and> length (skipped (iteration env) 0 locs)
          + length (present_locations (iteration env) 0 locs) = length locs
      \<and> main_errors (events (run_pipeline P locs env file)) = []
      \<and> summaries (events (run_pipeline P locs env file))
          = [length (present_locations (iteration env) 0 locs)]"
    if h: "connect_fault env = None" "\<forall>j. anticipated P (http (iteration env j))"
  proof -
    from h(2) have n: "no_raise P (iteration env) 0 locs" by (rule anticipated_pass)
    have r: "filter is_request (events (run_pipeline P locs env file)) = map request_of locs"
    proof -
      have "filter is_request (filter is_request_or_pause (events (run_pipeline P locs env file))) =
          filter is_request (concat (map (\<lambda>l. [request_of l, Sleep 0.1]) locs))"
        by (simp only: run_pass_complete(2)[OF h(1) n])
      then show ?thesis by (simp only: is_request_filter filter_request_pause)
    qed
    have l: "length (skipped (iteration env) 0 locs)
             + length (present_locations (iteration env) 0 locs) = length locs"
      by (rule skipped_present_length)
    from r l run_pass_complete(1,3,4,5)[OF h(1) n] produced_present[OF n]
    show ?thesis by simp
  qed
  have b: "main_errors (events (run_pipeline P locs env file)) = [e]
      \<and> filter is_request (events (run_pipeline P locs env file)) = map request_of (pre @ [loc])
      \<and> summaries (events (run_pipeline P locs env file)) = []"
    if h: "connect_fault env = None" "locs = pre @ loc # post"
      "no_raise P (iteration env) 0 pre"
      "fetched (iteration env) (length pre) loc = Inr v" "truthy v"
      "normalize P v loc (clock (iteration env (length pre))) = Inl e"
  proof -
    have f: "fetched (iteration env) (0 + length pre) loc = Inr v"
      and nz: "normalize P v loc (clock (iteration env (0 + length pre))) = Inl e"
      using h(4,6) by simp_all
    note ab = aborted_by_normalize[OF h(3) f h(5) nz, of post "start_state env file"]
    from ab(1) have g: "fst (process_locations P (iteration env) 0 locs (start_state env file)) = Some e"
      by (simp only: h(2))
    have ab': "filter is_request (out (snd (process_locations P (iteration env) 0 locs
                   (start_state env file)))) =
           filter is_request (out (start_state env file)) @ map request_of (pre @ [loc])"
      "summaries (out (snd (process_locations P (iteration env) 0 locs (start_state env file))))
         = summaries (out (start_state env file))"
      "main_errors (out (snd (process_locations P (iteration env) 0 locs (start_state env file))))
         = main_errors (out (start_state env file))"
      using ab(2,3,4) by (simp_all only: h(2))
    show ?thesis
      unfolding run_aborted[OF h(1) g]
      using ab'
      by (simp add: start_state_events summaries_append main_errors_append)
  qed
  from a b show ?thesis by blast
qed

theorem C5_witness:
  "(connect_fault (steady first_fails) = None
     \<and> (\<forall>j. anticipated sample_pandas (http (iteration (steady first_fails) j))))
   \<and> filter is_request (events (run_pipeline sample_pandas [paris, tokyo] (steady first_fails) []))
       = [request_of paris, request_of tokyo]
   \<and> skip_warnings (events (run_pipeline sample_pandas [paris, tokyo] (steady first_fails) []))
       = [''Paris'']
   \<and> main_errors (events (run_pipeline sample_pandas [paris, tokyo] (steady first_fails) [])) = []
   \<and> (connect_fault (steady first_partial) = None \<and> [tokyo, paris] = [tokyo] @ paris # []
        \<and> no_raise sample_pandas (iteration (steady first_partial)) 0 ([] :: location list)
        \<and> fetched (iteration (steady first_partial)) (length ([] :: location list)) tokyo
            = Inr partial_observation
        \<and> truthy partial_observation
        \<and> normalize sample_pandas partial_observation tokyo
             (clock (iteration (steady first_partial) (length ([] :: location list))))
            = Inl (KeyError ''time''))
   \<and> filter is_request (events (run_pipeline sample_pandas [tokyo, paris] (steady first_partial) []))
       = [request_of tokyo]"
proof -
  have c: "connect_fault (steady first_fails) = None
     \<and> (\<forall>j. anticipated sample_pandas (http (iteration (steady first_fails) j)))"
    by (simp add: steady_def anticipated_first_fails)
  have s: "skipped (iteration (steady first_fails)) 0 [paris, tokyo] = [''Paris'']"
    by (simp add: steady_def present_def fetched_first_fails truthy_observation paris_def)
  have d: "connect_fault (steady first_partial) = None
        \<and> no_raise sample_pandas (iteration (steady first_partial)) 0 ([] :: location list)
        \<and> fetched (iteration (steady first_partial)) (length ([] :: location list)) tokyo
            = Inr partial_observation
        \<and> truthy partial_observation
        \<and> normalize sample_pandas partial_observation tokyo
             (clock (iteration (steady first_partial) (length ([] :: location list))))
            = Inl (KeyError ''time'')"
    by (simp add: steady_def fetched_first_partial truthy_partial normalize_partial)
  from C5_pass_reaches_every_location[of "steady first_fails" sample_pandas "[paris, tokyo]" "[]"
      "[]" paris "[]" JNull TypeError] c s
  have one: "filter is_request (events (run_pipeline sample_pandas [paris, tokyo] (steady first_fails) []))
       = [request_of paris, request_of tokyo]
   \<and> skip_warnings (events (run_pipeline sample_pandas [paris, tokyo] (steady first_fails) []))
       = [''Paris'']
   \<and> main_errors (events (run_pipeline sample_pandas [paris, tokyo] (steady first_fails) [])) = []"
    by simp
  from C5_pass_reaches_every_location[of "steady first_partial" sample_pandas "[tokyo, paris]" "[]"
      "[]" tokyo "[paris]" partial_observation "KeyError ''time''"] d
  have two: "filter is_request (events (run_pipeline sample_pandas [tokyo, paris] (steady first_partial) []))
       = [request_of tokyo]"
    by simp
  from c d one two show ?thesis by simp
qed

section \<open>Running the store on the examples\<close>

lemma fresh_store:
  "weather_table [create_table_sql] = Some create_table_sql"
  "conformant [create_table_sql]"
  "stored_rows [create_table_sql] = []"
  by (simp_all add: weather_table_def conformant_def stored_rows_def create_table_sql_def)

lemma start_state_fresh: "conn (start_state (steady w) []) = [create_table_sql]"
  by (simp add: start_state_def steady_def create_weather_table_def create_table_if_not_exists_def)

lemma steady_iteration: "iteration (steady w) = w"
  by (simp add: steady_def)

lemma store_first_row:
  assumes "timestamp r \<noteq> None"
  shows "store_weather_data P [r] None [create_table_sql] =
           ([], [create_table_sql\<lparr>rows := [sql_row_of P r]\<rparr>])"
  using assms
  by (simp add: store_single fresh_store) (simp add: create_table_sql_def)

lemma one_row_store:
  "weather_table [create_table_sql\<lparr>rows := rs\<rparr>] = Some (create_table_sql\<lparr>rows := rs\<rparr>)"
  "conformant [create_table_sql\<lparr>rows := rs\<rparr>]"
  "stored_rows [create_table_sql\<lparr>rows := rs\<rparr>] = rs"
  by (simp_all add: weather_table_def conformant_def stored_rows_def create_table_sql_def)

lemma key_ignores_clock:
  "key_of (sql_row_of P (r\<lparr>ingestion_timestamp := now\<rparr>)) = key_of (sql_row_of P r)"
  by (simp add: key_of_def sql_row_cells)

lemma sample_normalize_record:
  "normalize sample_pandas (observation ''2024-05-01T10:00'') loc now = Inr [sample_record loc now]"
  by (simp add: sample_normalize sample_record_def)

lemma produced_all_well:
  "produced sample_pandas all_well i [loc, loc'] =
     [([sample_record loc ''2024-05-01T10:07''], None),
      ([sample_record loc' ''2024-05-01T10:07''], None)]"
  by (simp add: fetched_all_well truthy_observation sample_normalize_record)
     (simp add: all_well_def calm_def)

lemma sample_record_key:
  "timestamp (sample_record loc now) \<noteq> None"
  "key_of (sql_row_of P (sample_record loc now)) = key_of (sql_row_of P (sample_record loc now'))"
  by (simp_all add: sample_record_def key_of_def sql_row_cells)

lemma store_all_twice:
  "store_all sample_pandas
     [([sample_record loc now], None), ([sample_record loc now'], None)] [create_table_sql]
   = [create_table_sql\<lparr>rows := [sql_row_of sample_pandas (sample_record loc now)]\<rparr>]"
proof -
  have "snd (store_weather_data sample_pandas [sample_record loc now'] None
          [create_table_sql\<lparr>rows := [sql_row_of sample_pandas (sample_record loc now)]\<rparr>])
        = [create_table_sql\<lparr>rows := [sql_row_of sample_pandas (sample_record loc now)]\<rparr>]"
    by (rule store_single_rejected) (simp_all add: one_row_store sample_record_key(2)[of _ _ now' now])
  then show ?thesis
    by (simp add: store_all_def store_first_row sample_record_key(1))
qed

section \<open>The summary count\<close>

text \<open>
  C6. When the pass runs to its end, the summary is printed once, and the count it
  carries is the number of locations whose fetch returned a present (non-empty) value:
  one for each frame handed to the append operation. The count is reached whatever the
  storage layer does with the frames and whatever the database already holds.
\<close>

theorem C6_summary_counts_produced_records:
  assumes "connect_fault env = None" "no_raise P (iteration env) 0 locs"
  shows "summaries (events (run_pipeline P locs env file))
           = [length (present_locations (iteration env) 0 locs)]
       \<and> length (present_locations (iteration env) 0 locs)
           = length (produced P (iteration env) 0 locs)
       \<and> summaries (events (run_pipeline P locs env file'))
           = summaries (events (run_pipeline P locs env file))"
  using run_pass_complete(4)[OF assms, of "file"]
    run_pass_complete(4)[OF assms, of "file'"] produced_present[OF assms(2)]
  by simp

theorem C6_witness:
  "connect_fault (steady all_well) = None
   \<and> no_raise sample_pandas (iteration (steady all_well)) 0 [paris, paris]
   \<and> summaries (events (run_pipeline sample_pandas [paris, paris] (steady all_well) [])) = [2]
   \<and> length (stored_rows (db (run_pipeline sample_pandas [paris, paris] (steady all_well) []))) = 1"
proof -
  have c: "connect_fault (steady all_well) = None"
    and n: "no_raise sample_pandas (iteration (steady all_well)) 0 [paris, paris]"
    using no_raise_all_well[of 0 "[paris, paris]"] by (simp_all add: steady_def)
  have p: "length (present_locations (iteration (steady all_well)) 0 [paris, paris]) = 2"
    by (simp add: steady_def present_all_well)
  have d: "db (run_pipeline sample_pandas [paris, paris] (steady all_well) []) =
      [create_table_sql\<lparr>rows := [sql_row_of sample_pandas (sample_record paris ''2024-05-01T10:07'')]\<rparr>]"
    unfolding run_pass_complete(1)[OF c n, of "[]"] start_state_fresh steady_iteration
      produced_all_well store_all_twice
    by (rule refl)
  from C6_summary_counts_produced_records[OF c n, of "[]" "[]"] c n p d
  show ?thesis by (simp add: one_row_store)
qed

section \<open>The connection\<close>

lemma aborted_pass:
  assumes "no_raise P w i pre" "raises P w (i + length pre) loc"
  shows "\<exists>e st'. process_locations P w i (pre @ loc # post) st = (Some e, st')
           \<and> conn st' = conn (snd (process_locations P w i pre st))
           \<and> filter is_request (out st') = filter is_request (out st) @ map request_of (pre @ [loc])
           \<and> summaries (out st') = summaries (out st)
           \<and> main_errors (out st') = main_errors (out st)"
proof -
  from raising_step_requests[OF assms(2), of post "snd (process_locations P w i pre st)"]
  obtain e st' where s: "process_locations P w (i + length pre) (loc # post)
        (snd (process_locations P w i pre st)) = (Some e, st')"
    "conn st' = conn (snd (process_locations P w i pre st))"
    "filter is_request (out st') =
       filter is_request (out (snd (process_locations P w i pre st))) @ [request_of loc]"
    "summaries (out st') = summaries (out (snd (process_locations P w i pre st)))"
    "main_errors (out st') = main_errors (out (snd (process_locations P w i pre st)))"
    by blast
  from s(1) have "process_locations P w i (pre @ loc # post) st = (Some e, st')"
    by (simp only: process_locations_append[OF assms(1)])
  moreover from s(3) have "filter is_request (out st') =
      filter is_request (out st) @ map request_of (pre @ [loc])"
    by (simp add: pass_requests[OF assms(1)])
  moreover from s(4) have "summaries (out st') = summaries (out st)"
    by (simp add: pass_complete(6)[OF assms(1)])
  moreover from s(5) have "main_errors (out st') = main_errors (out st)"
    by (simp add: pass_complete(7)[OF assms(1)])
  ultimately show ?thesis using s(2) by blast
qed

lemma run_never_left_open: "connection (run_pipeline P locs env file) \<noteq> Opened"
  by (cases "try_block P locs env file") (simp add: run_pipeline_def Let_def)

lemma run_connected_closed:
  assumes "connect_fault env = None"
  shows "connection (run_pipeline P locs env file) = Closed
       \<and> last (events (run_pipeline P locs env file)) = Print ConnectionClosed"
proof (cases "fst (process_locations P (iteration env) 0 locs (start_state env file))")
  case None
  from run_complete[OF assms None] show ?thesis by simp
next
  case (Some e)
  from run_aborted[OF assms Some] show ?thesis by simp
qed

text \<open>
  C9. Whatever the run meets, the connection is never left open: it was never opened
  (the connect itself failed: the error is logged, no request is made, the database is
  as it was), or it is closed, and closing is the last thing the run does. When an
  exception leaves the loop at some location, after the locations before it went
  through, the handler logs exactly that one error, the requests made are those up to
  and including that location and none after it, no summary is printed, and the
  connection is closed.
\<close>

theorem C9_connection_always_released:
  "connection (run_pipeline P locs env file) \<noteq> Opened
   \<and> (connect_fault env = None \<longrightarrow>
        connection (run_pipeline P locs env file) = Closed
        \<and> last (events (run_pipeline P locs env file)) = Print ConnectionClosed)
   \<and> (connect_fault env = Some msg \<longrightarrow>
        connection (run_pipeline P locs env file) = NotOpened
        \<and> main_errors (events (run_pipeline P locs env file)) = [SqliteError msg]
        \<and> filter is_request (events (run_pipeline P locs env file)) = []
        \<and> db (run_pipeline P locs env file) = file)
   \<and> (connect_fault env = None \<and> locs = pre @ loc # post
        \<and> no_raise P (iteration env) 0 pre \<and> raises P (iteration env) (length pre) loc \<longrightarrow>
        (\<exists>e. main_errors (events (run_pipeline P locs env file)) = [e])
        \<and> filter is_request (events (run_pipeline P locs env file)) = map request_of (pre @ [loc])
        \<and> summaries (events (run_pipeline P locs env file)) = []
        \<and> connection (run_pipeline P locs env file) = Closed)"
proof -
  have a: "connection (run_pipeline P locs env file) \<noteq> Opened"
    by (rule run_never_left_open)
  have b: "connect_fault env = None \<longrightarrow>
        connection (run_pipeline P locs env file) = Closed
        \<and> last (events (run_pipeline P locs env file)) = Print ConnectionClosed"
    using run_connected_closed by blast
  have c: "connect_fault env = Some msg \<longrightarrow>
        connection (run_pipeline P locs env file) = NotOpened
        \<and> main_errors (events (run_pipeline P locs env file)) = [SqliteError msg]
        \<and> filter is_request (events (run_pipeline P locs env file)) = []
        \<and> db (run_pipeline P locs env file) = file"
    by (simp add: run_not_connected)
  have d: "(\<exists>e. main_errors (events (run_pipeline P locs env file)) = [e])
        \<and> filter is_request (events (run_pipeline P locs env file)) = map request_of (pre @ [loc])
        \<and> summaries (events (run_pipeline P locs env file)) = []
        \<and> connection (run_pipeline P locs env file) = Closed"
    if h: "connect_fault env = None" "locs = pre @ loc # post"
      "no_raise P (iteration env) 0 pre" "raises P (iteration env) (length pre) loc"
  proof -
    from h(4) have "raises P (iteration env) (0 + length pre) loc" by simp
    from aborted_pass[OF h(3) this, of post "start_state env file"]
    obtain e st' where s:
      "process_locations P (iteration env) 0 (pre @ loc # post) (start_state env file) = (Some e, st')"
      "filter is_request (out st') =
         filter is_request (out (start_state env file)) @ map request_of (pre @ [loc])"
      "summaries (out st') = summaries (out (start_state env file))"
      "main_errors (out st') = main_errors (out (start_state env file))"
      by blast
    from s(1) h(2) have f: "fst (process_locations P (iteration env) 0 locs (start_state env file)) = Some e"
      and g: "snd (process_locations P (iteration env) 0 locs (start_state env file)) = st'"
      by simp_all
    show ?thesis
      unfolding run_aborted[OF h(1) f] g
      using s(2,3,4)
      by (simp add: start_state_events summaries_append main_errors_append)
  qed
  from a b c d show ?thesis by blast
qed

theorem C9_witness:
  "(connect_fault (steady first_partial) = None \<and> [paris, tokyo] = [] @ paris # [tokyo]
      \<and> no_raise sample_pandas (iteration (steady first_partial)) 0 []
      \<and> raises sample_pandas (iteration (steady first_partial)) (length ([] :: location list)) paris)
   \<and> connection (run_pipeline sample_pandas [paris, tokyo] (steady first_partial) []) = Closed
   \<and> last (events (run_pipeline sample_pandas [paris, tokyo] (steady first_partial) []))
       = Print ConnectionClosed
   \<and> filter is_request (events (run_pipeline sample_pandas [paris, tokyo] (steady first_partial) []))
       = [request_of paris]
   \<and> summaries (events (run_pipeline sample_pandas [paris, tokyo] (steady first_partial) [])) = []"
proof -
  have h: "connect_fault (steady first_partial) = None \<and> [paris, tokyo] = [] @ paris # [tokyo]
      \<and> no_raise sample_pandas (iteration (steady first_partial)) 0 []
      \<and> raises sample_pandas (iteration (steady first_partial)) (length ([] :: location list)) paris"
    using truthy_partial
    by (simp add: steady_def raises_def fetched_first_partial normalize_partial)
  from C9_connection_always_released[of sample_pandas "[paris, tokyo]" "steady first_partial" "[]"
      "[]" "[]" paris "[tokyo]"] h
  show ?thesis by simp
qed

section \<open>Schema creation\<close>

lemma create_if_exists:
  "tname t \<in> set (map tname d) \<Longrightarrow> create_table_if_not_exists t d = d"
  by (simp add: create_table_if_not_exists_def)

lemma weather_table_None: "(weather_table d = None) = (''weather_records'' \<notin> set (map tname d))"
  by (induction d) (auto simp: weather_table_def)

lemma table_count_zero: "(table_count d = 0) = (weather_table d = None)"
  by (induction d) (auto simp: table_count_def weather_table_def)

lemma find_append_None: "find p xs = None \<Longrightarrow> find p (xs @ ys) = find p ys"
  by (induction xs) (auto split: if_splits)

lemma ensure_schema_present:
  "weather_table d \<noteq> None \<Longrightarrow> ensure_schema d = d"
  by (simp add: ensure_schema_def create_weather_table_def create_table_if_not_exists_def
      weather_table_None create_table_sql_def)

lemma ensure_schema_absent:
  assumes "weather_table d = None"
  shows "ensure_schema d = d @ [create_table_sql]"
    and "weather_table (ensure_schema d) = Some create_table_sql"
    and "table_count (ensure_schema d) = 1"
proof -
  show e: "ensure_schema d = d @ [create_table_sql]"
    using assms
    by (simp add: ensure_schema_def create_weather_table_def create_table_if_not_exists_def
      weather_table_None create_table_sql_def)
  have n: "find (\<lambda>t. tname t = ''weather_records'') d = None"
    using assms by (simp add: weather_table_def)
  show "weather_table (ensure_schema d) = Some create_table_sql"
    unfolding e using n by (simp add: weather_table_def find_append_None create_table_sql_def)
  have "filter (\<lambda>t. tname t = ''weather_records'') d = []"
    using n by (induction d) (auto split: if_splits)
  then show "table_count (ensure_schema d) = 1"
    unfolding e by (simp add: table_count_def create_table_sql_def)
qed

lemma ensure_schema_table: "weather_table (ensure_schema d) \<noteq> None"
proof (cases "weather_table d")
  case None
  from ensure_schema_absent(2)[OF None] show ?thesis by simp
next
  case (Some t)
  then show ?thesis by (simp add: ensure_schema_present)
qed

lemma ensure_schema_idem: "ensure_schema (ensure_schema d) = ensure_schema d"
  by (rule ensure_schema_present) (rule ensure_schema_table)

lemma ensure_schema_funpow: "(ensure_schema ^^ Suc n) d = ensure_schema d"
  by (induction n) (simp_all add: ensure_schema_idem)

lemma create_after_ensure:
  "snd (create_weather_table fault (ensure_schema d)) = ensure_schema d"
proof (cases fault)
  case None
  then show ?thesis using ensure_schema_idem[of d] by (simp add: ensure_schema_def)
next
  case (Some msg)
  then show ?thesis by (simp add: create_weather_table_def)
qed

text \<open>
  C7. Creating the schema is idempotent. For every N \<ge> 1, N calls that the storage layer
  lets through leave the database as one call does, and any call after the first (let
  through or not) changes nothing. On a database with no table of that name the result
  holds exactly one table named weather_records, the one declared (its ten columns, the
  key (timestamp, latitude, longitude), no row); on a database that already holds the
  table as declared nothing changes at all.
\<close>

theorem C7_schema_creation_idempotent:
  "(ensure_schema ^^ Suc n) d = ensure_schema d
   \<and> snd (create_weather_table fault (ensure_schema d)) = ensure_schema d
   \<and> (weather_table d = None \<longrightarrow>
        table_count ((ensure_schema ^^ Suc n) d) = 1
        \<and> weather_table ((ensure_schema ^^ Suc n) d) = Some create_table_sql
        \<and> conformant ((ensure_schema ^^ Suc n) d))
   \<and> (conformant d \<longrightarrow>
        (ensure_schema ^^ Suc n) d = d \<and> conformant ((ensure_schema ^^ Suc n) d))
   \<and> columns create_table_sql = weather_columns
   \<and> primary_key create_table_sql = [''timestamp'', ''latitude'', ''longitude'']"
proof -
  have a: "(ensure_schema ^^ Suc n) d = ensure_schema d" by (rule ensure_schema_funpow)
  have b: "snd (create_weather_table fault (ensure_schema d)) = ensure_schema d"
    by (rule create_after_ensure)
  have c: "weather_table d = None \<longrightarrow>
        table_count (ensure_schema d) = 1
        \<and> weather_table (ensure_schema d) = Some create_table_sql
        \<and> conformant (ensure_schema d)"
  proof
    assume h: "weather_table d = None"
    from ensure_schema_absent(2,3)[OF h] show "table_count (ensure_schema d) = 1
        \<and> weather_table (ensure_schema d) = Some create_table_sql
        \<and> conformant (ensure_schema d)"
      by (simp add: conformant_def create_table_sql_def)
  qed
  have d: "conformant d \<longrightarrow> ensure_schema d = d \<and> conformant (ensure_schema d)"
    by (auto simp: conformant_def ensure_schema_present split: option.splits)
  have e: "columns create_table_sql = weather_columns
   \<and> primary_key create_table_sql = [''timestamp'', ''latitude'', ''longitude'']"
    by (simp add: create_table_sql_def weather_key_def)
  from b c d e show ?thesis unfolding a by blast
qed

theorem C7_witness:
  "weather_table [] = None
   \<and> (ensure_schema ^^ Suc 2) [] = [create_table_sql]
   \<and> table_count ((ensure_schema ^^ Suc 2) []) = 1
   \<and> conformant [create_table_sql]
   \<and> (ensure_schema ^^ Suc 2) [create_table_sql] = [create_table_sql]"
proof -
  have h: "weather_table [] = None" by (simp add: weather_table_def)
  have e: "ensure_schema [] = [create_table_sql]"
    using ensure_schema_absent(1)[OF h] by simp
  have t: "table_count [create_table_sql] = 1"
    by (simp add: table_count_def create_table_sql_def)
  have p: "ensure_schema [create_table_sql] = [create_table_sql]"
    by (rule ensure_schema_present) (simp add: fresh_store)
  from C7_schema_creation_idempotent[of 2 "[]" None]
    C7_schema_creation_idempotent[of 2 "[create_table_sql]" None] h e t p fresh_store(2)
  show ?thesis by simp
qed

section \<open>A run keeps the table as declared\<close>

lemma start_state_ready:
  assumes "schema_ready env file"
  shows "conformant (conn (start_state env file))"
    and "stored_rows (conn (start_state env file)) = stored_rows file"
proof -
  from assms consider (there) "conformant file"
    | (absent) "weather_table file = None" "create_fault env = None"
    by (auto simp: schema_ready_def)
  then have "conformant (conn (start_state env file))
      \<and> stored_rows (conn (start_state env file)) = stored_rows file"
  proof cases
    case there
    then have "weather_table file \<noteq> None" by (auto simp: conformant_def split: option.splits)
    then have "snd (create_weather_table (create_fault env) file) = file"
      using ensure_schema_present[of "file"]
      by (cases "create_fault env") (simp_all add: create_weather_table_def ensure_schema_def)
    with there show ?thesis by (simp add: start_state_def)
  next
    case absent
    then have c: "conn (start_state env file) = ensure_schema file"
      by (simp add: start_state_def ensure_schema_def)
    from ensure_schema_absent(2)[OF absent(1)] absent(1) show ?thesis
      unfolding c by (simp add: conformant_def stored_rows_def create_table_sql_def)
  qed
  then show "conformant (conn (start_state env file))"
    and "stored_rows (conn (start_state env file)) = stored_rows file" by simp_all
qed

lemma run_pipeline_db:
  "db (run_pipeline P locs env file) =
     (case connect_fault env of
        Some msg \<Rightarrow> file
      | None \<Rightarrow> conn (snd (process_locations P (iteration env) 0 locs (start_state env file))))"
proof (cases "connect_fault env")
  case None
  show ?thesis
  proof (cases "fst (process_locations P (iteration env) 0 locs (start_state env file))")
    case n: None
    from run_complete[OF None n] None show ?thesis by simp
  next
    case (Some e)
    from run_aborted[OF None Some] None show ?thesis by simp
  qed
next
  case (Some msg)
  then show ?thesis by (simp add: run_not_connected)
qed

lemma run_keeps:
  assumes ready: "schema_ready env file"
    and step: "\<And>df fault d. conformant d \<and> I (stored_rows d)
                 \<Longrightarrow> I (stored_rows (snd (store_weather_data P df fault d)))"
    and init: "I (stored_rows file)"
  shows "I (stored_rows (db (run_pipeline P locs env file)))"
proof (cases "connect_fault env")
  case None
  have "conformant (conn (start_state env file)) \<and> I (stored_rows (conn (start_state env file)))"
    using start_state_ready[OF ready] init by simp
  then have "conformant (conn (snd (process_locations P (iteration env) 0 locs (start_state env file))))
     \<and> I (stored_rows (conn (snd (process_locations P (iteration env) 0 locs (start_state env file)))))"
    by (rule process_locations_invariant[rotated]) (simp add: store_conformant step)
  with None show ?thesis by (simp add: run_pipeline_db)
next
  case (Some msg)
  with init show ?thesis by (simp add: run_pipeline_db)
qed

lemma run_conformant:
  assumes "schema_ready env file" "connect_fault env = None"
  shows "conformant (db (run_pipeline P locs env file))"
proof -
  have "conformant (conn (snd (process_locations P (iteration env) 0 locs (start_state env file))))"
    using start_state_ready(1)[OF assms(1)]
    by (rule process_locations_invariant[rotated]) (simp add: store_conformant)
  with assms(2) show ?thesis by (simp add: run_pipeline_db)
qed

section \<open>A second run over the same responses\<close>

lemma normalize_clock:
  "normalize P v loc now = Inl e \<Longrightarrow> normalize P v loc now' = Inl e"
  "normalize P v loc now = Inr df \<Longrightarrow>
     \<exists>r. df = [r] \<and> normalize P v loc now' = Inr [r\<lparr>ingestion_timestamp := now'\<rparr>]"
  by (auto simp: normalize_def split: json.splits option.splits sum.splits)

lemma process_rows_grow:
  assumes "conformant (conn st)"
  shows "set (stored_rows (conn st))
           \<subseteq> set (stored_rows (conn (snd (process_locations P w i locs st))))"
proof -
  have "conformant (conn st) \<and> set (stored_rows (conn st)) \<subseteq> set (stored_rows (conn st))"
    using assms by simp
  then have "conformant (conn (snd (process_locations P w i locs st)))
     \<and> set (stored_rows (conn st)) \<subseteq> set (stored_rows (conn (snd (process_locations P w i locs st))))"
    by (rule process_locations_invariant[rotated]) (use store_conformant store_rows_grow in blast)
  then show ?thesis by simp
qed

lemma fetched_same_http: "http (w2 i) = http (w1 i) \<Longrightarrow> fetched w2 i loc = fetched w1 i loc"
  by (simp add: fetched_def)

lemma rerun_loop:
  assumes same: "\<forall>j. http (w2 j) = http (w1 j)"
    and calm: "\<forall>j. storage_fault (w1 j) = None"
  shows "conformant (conn s1) \<Longrightarrow> conformant (conn s2) \<Longrightarrow>
     key_of ` set (stored_rows (conn (snd (process_locations P w1 i locs s1))))
        \<subseteq> key_of ` set (stored_rows (conn s2)) \<Longrightarrow>
     conn (snd (process_locations P w2 i locs s2)) = conn s2"
proof (induction locs arbitrary: i s1 s2)
  case Nil
  then show ?case by simp
next
  case (Cons loc locs)
  from same have "http (w2 i) = http (w1 i)" by blast
  then have f: "fetched w2 i loc = fetched w1 i loc" by (rule fetched_same_http)
  show ?case
  proof (cases rule: step_cases[where w=w1 and i=i and loc=loc and P=P])
    case (fetch_raises e)
    with f have "fetched w2 i loc = Inl e" by simp
    then show ?thesis by (simp add: step_fetch_raises)
  next
    case (skip v)
    with f have f2: "fetched w2 i loc = Inr v" by simp
    define t1 where "t1 = s1\<lparr>out := out s1 @ fst (fetch_current_weather (latitude loc) (longitude loc) (timezone loc) (http (w1 i)))
                @ [Sleep 0.1, Print (SkippingStorage (city loc))]\<rparr>"
    define t2 where "t2 = s2\<lparr>out := out s2 @ fst (fetch_current_weather (latitude loc) (longitude loc) (timezone loc) (http (w2 i)))
                @ [Sleep 0.1, Print (SkippingStorage (city loc))]\<rparr>"
    have p1: "process_locations P w1 i (loc # locs) s1 = process_locations P w1 (Suc i) locs t1"
      unfolding t1_def by (rule step_skip[OF skip])
    have p2: "process_locations P w2 i (loc # locs) s2 = process_locations P w2 (Suc i) locs t2"
      unfolding t2_def by (rule step_skip[OF f2 skip(2)])
    have c: "conn t1 = conn s1" "conn t2 = conn s2" by (simp_all add: t1_def t2_def)
    have a1: "conformant (conn t1)" and a2: "conformant (conn t2)"
      using Cons.prems(1,2) by (simp_all only: c)
    have a3: "key_of ` set (stored_rows (conn (snd (process_locations P w1 (Suc i) locs t1))))
        \<subseteq> key_of ` set (stored_rows (conn t2))"
      using Cons.prems(3) by (simp only: p1 c)
    from Cons.IH[OF a1 a2 a3] show ?thesis by (simp only: p2 c)
  next
    case (normalize_raises v e)
    with f have f2: "fetched w2 i loc = Inr v" by simp
    from normalize_clock(1)[OF normalize_raises(3)]
    have "normalize P v loc (clock (w2 i)) = Inl e" .
    from step_normalize_raises[OF f2 normalize_raises(2) this] show ?thesis by simp
  next
    case (store v df)
    with f have f2: "fetched w2 i loc = Inr v" by simp
    from normalize_clock(2)[OF store(3), of "clock (w2 i)"]
    obtain r where r: "df = [r]"
      "normalize P v loc (clock (w2 i)) = Inr [r\<lparr>ingestion_timestamp := clock (w2 i)\<rparr>]"
      by blast
    define d1 where "d1 = snd (store_weather_data P df (storage_fault (w1 i)) (conn s1))"
    define r2 where "r2 = r\<lparr>ingestion_timestamp := clock (w2 i)\<rparr>"
    define t1 where "t1 = s1\<lparr>conn := snd (store_weather_data P df (storage_fault (w1 i)) (conn s1)),
           out := out s1 @ fst (fetch_current_weather (latitude loc) (longitude loc) (timezone loc) (http (w1 i)))
                @ [Sleep 0.1] @ fst (store_weather_data P df (storage_fault (w1 i)) (conn s1)),
           records_processed := Suc (records_processed s1)\<rparr>"
    define t2 where "t2 = s2\<lparr>conn := snd (store_weather_data P [r2] (storage_fault (w2 i)) (conn s2)),
           out := out s2 @ fst (fetch_current_weather (latitude loc) (longitude loc) (timezone loc) (http (w2 i)))
                @ [Sleep 0.1] @ fst (store_weather_data P [r2] (storage_fault (w2 i)) (conn s2)),
           records_processed := Suc (records_processed s2)\<rparr>"
    have p1: "process_locations P w1 i (loc # locs) s1 = process_locations P w1 (Suc i) locs t1"
      unfolding t1_def by (rule step_store[OF store])
    have p2: "process_locations P w2 i (loc # locs) s2 = process_locations P w2 (Suc i) locs t2"
      unfolding t2_def r2_def by (rule step_store[OF f2 store(2) r(2)])
    have ct1: "conn t1 = d1" by (simp add: t1_def d1_def)
    have c1: "conformant d1" unfolding d1_def using Cons.prems(1) by (rule store_conformant)
    have final: "key_of ` set (stored_rows (conn (snd (process_locations P w1 (Suc i) locs t1))))
        \<subseteq> key_of ` set (stored_rows (conn s2))"
      using Cons.prems(3) by (simp only: p1)
    have grow: "set (stored_rows d1) \<subseteq> set (stored_rows (conn (snd (process_locations P w1 (Suc i) locs t1))))"
      using process_rows_grow[of t1 P w1 "Suc i" locs] c1 by (simp only: ct1)
    have rejected: "timestamp r2 = None \<or> key_of (sql_row_of P r2) \<in> key_of ` set (stored_rows (conn s2))"
    proof (cases "timestamp r")
      case None
      then show ?thesis by (simp add: r2_def)
    next
      case (Some t)
      then have ne: "timestamp r \<noteq> None" by simp
      have "storage_fault (w1 i) = None" using calm by simp
      with store_single_key_present[OF Cons.prems(1) ne, of P]
      have "key_of (sql_row_of P r) \<in> key_of ` set (stored_rows d1)"
        by (simp only: d1_def r(1))
      with grow final have "key_of (sql_row_of P r) \<in> key_of ` set (stored_rows (conn s2))"
        by blast
      then show ?thesis by (simp only: r2_def key_ignores_clock) simp
    qed
    have unchanged: "snd (store_weather_data P [r2] (storage_fault (w2 i)) (conn s2)) = conn s2"
      using Cons.prems(2) rejected by (rule store_single_rejected)
    have ct2: "conn t2 = conn s2" by (simp add: t2_def unchanged)
    have a1: "conformant (conn t1)" using c1 by (simp only: ct1)
    have a2: "conformant (conn t2)" using Cons.prems(2) by (simp only: ct2)
    have a3: "key_of ` set (stored_rows (conn (snd (process_locations P w1 (Suc i) locs t1))))
        \<subseteq> key_of ` set (stored_rows (conn t2))"
      using final by (simp only: ct2)
    from Cons.IH[OF a1 a2 a3] show ?thesis by (simp only: p2 ct2)
  qed
qed

lemma start_state_conformant:
  assumes "conformant file"
  shows "conn (start_state env file) = file"
proof -
  from assms have "weather_table file \<noteq> None" by (auto simp: conformant_def split: option.splits)
  then show ?thesis
    using ensure_schema_present[of "file"]
    by (cases "create_fault env") (simp_all add: start_state_def create_weather_table_def ensure_schema_def)
qed

lemma rerun:
  assumes ready: "schema_ready env file" and c: "connect_fault env = None"
    and calm: "\<forall>j. storage_fault (iteration env j) = None"
    and same: "\<forall>j. http (iteration env2 j) = http (iteration env j)"
  shows "db (run_pipeline P locs env2 (db (run_pipeline P locs env file)))
           = db (run_pipeline P locs env file)"
proof (cases "connect_fault env2")
  case None
  define d1 where "d1 = db (run_pipeline P locs env file)"
  have d1: "d1 = conn (snd (process_locations P (iteration env) 0 locs (start_state env file)))"
    using c by (simp add: d1_def run_pipeline_db)
  have cd1: "conformant d1" unfolding d1_def using ready c by (rule run_conformant)
  have s2: "conn (start_state env2 d1) = d1" using cd1 by (rule start_state_conformant)
  have "conn (snd (process_locations P (iteration env2) 0 locs (start_state env2 d1)))
          = conn (start_state env2 d1)"
  proof (rule rerun_loop[OF same calm])
    show "conformant (conn (start_state env file))" using ready by (rule start_state_ready(1))
    show "conformant (conn (start_state env2 d1))" using cd1 by (simp only: s2)
    show "key_of ` set (stored_rows (conn (snd (process_locations P (iteration env) 0 locs
              (start_state env file)))))
          \<subseteq> key_of ` set (stored_rows (conn (start_state env2 d1)))"
      unfolding s2 by (simp add: d1)
  qed
  then have "db (run_pipeline P locs env2 d1) = d1"
    using None by (simp add: run_pipeline_db s2)
  then show ?thesis by (simp only: d1_def)
next
  case (Some msg)
  then show ?thesis by (simp add: run_pipeline_db)
qed

section \<open>The primary key\<close>

text \<open>
  C1. On a database whose table is the declared one (or is absent and gets created), a
  run keeps the tuples (timestamp, latitude, longitude) of the stored rows pairwise
  different, whatever the responses, the clock and the storage faults. A record whose
  key is already stored is discarded: the database stays exactly as it was, so the row
  written first stays. A second run that meets the same responses as a first run whose
  inserts met no outside fault therefore leaves the database exactly as the first run
  left it.
\<close>

theorem C1_key_stays_unique_first_write_wins:
  assumes "schema_ready env file" "keys_unique file"
  shows "keys_unique (db (run_pipeline P locs env file))
       \<and> (conformant d \<and> key_of (sql_row_of P r) \<in> key_of ` set (stored_rows d) \<longrightarrow>
            snd (store_weather_data P [r] fault d) = d)
       \<and> (connect_fault env = None \<and> (\<forall>j. storage_fault (iteration env j) = None)
            \<and> (\<forall>j. http (iteration env2 j) = http (iteration env j)) \<longrightarrow>
            db (run_pipeline P locs env2 (db (run_pipeline P locs env file)))
              = db (run_pipeline P locs env file))"
proof -
  have "distinct (map key_of (stored_rows (db (run_pipeline P locs env file))))"
  proof (rule run_keeps[OF assms(1)])
    show "distinct (map key_of (stored_rows file))" using assms(2) by (simp add: keys_unique_def)
  next
    fix df fault' d'
    assume "conformant d' \<and> distinct (map key_of (stored_rows d'))"
    then show "distinct (map key_of (stored_rows (snd (store_weather_data P df fault' d'))))"
      using store_keys_unique[of d' P df fault'] by (simp add: keys_unique_def)
  qed
  then have a: "keys_unique (db (run_pipeline P locs env file))" by (simp add: keys_unique_def)
  have b: "conformant d \<and> key_of (sql_row_of P r) \<in> key_of ` set (stored_rows d) \<longrightarrow>
            snd (store_weather_data P [r] fault d) = d"
    using store_single_rejected[of d r P fault] by blast
  have c: "connect_fault env = None \<and> (\<forall>j. storage_fault (iteration env j) = None)
            \<and> (\<forall>j. http (iteration env2 j) = http (iteration env j)) \<longrightarrow>
            db (run_pipeline P locs env2 (db (run_pipeline P locs env file)))
              = db (run_pipeline P locs env file)"
    using rerun[OF assms(1)] by blast
  from a b c show ?thesis by blast
qed

lemma produced_all_well_one:
  "produced sample_pandas all_well i [loc] = [([sample_record loc ''2024-05-01T10:07''], None)]"
  by (simp add: fetched_all_well truthy_observation sample_normalize_record)
     (simp add: all_well_def calm_def)

lemma first_run_db:
  "db (run_pipeline sample_pandas [paris] (steady all_well) []) =
     [create_table_sql\<lparr>rows := [sql_row_of sample_pandas (sample_record paris ''2024-05-01T10:07'')]\<rparr>]"
proof -
  have c: "connect_fault (steady all_well) = None"
    and n: "no_raise sample_pandas (iteration (steady all_well)) 0 [paris]"
    using no_raise_all_well[of 0 "[paris]"] by (simp_all add: steady_def)
  show ?thesis
    unfolding run_pass_complete(1)[OF c n, of "[]"] start_state_fresh steady_iteration
      produced_all_well_one
    by (simp add: store_all_def store_first_row sample_record_key(1))
qed

theorem C1_witness:
  "schema_ready (steady all_well) [] \<and> keys_unique []
   \<and> connect_fault (steady all_well) = None
   \<and> (\<forall>j. storage_fault (iteration (steady all_well) j) = None)
   \<and> (\<forall>j. http (iteration (steady later) j) = http (iteration (steady all_well) j))
   \<and> stored_rows (db (run_pipeline sample_pandas [paris] (steady later)
        (db (run_pipeline sample_pandas [paris] (steady all_well) []))))
      = [sql_row_of sample_pandas (sample_record paris ''2024-05-01T10:07'')]
   \<and> keys_unique (db (run_pipeline sample_pandas [paris] (steady all_well) []))"
proof -
  have h1: "schema_ready (steady all_well) []"
    by (simp add: schema_ready_def weather_table_def steady_def)
  have h2: "keys_unique []" by (simp add: keys_unique_def stored_rows_def weather_table_def)
  have h3: "connect_fault (steady all_well) = None
   \<and> (\<forall>j. storage_fault (iteration (steady all_well) j) = None)
   \<and> (\<forall>j. http (iteration (steady later) j) = http (iteration (steady all_well) j))"
    by (simp add: steady_def all_well_def later_def calm_def)
  from C1_key_stays_unique_first_write_wins[OF h1 h2, of sample_pandas "[paris]" "[create_table_sql]"
      "sample_record paris ''2024-05-01T10:42''" None "steady later"]
    h1 h2 h3
  show ?thesis by (simp add: first_run_db one_row_store)
qed

section \<open>Failed inserts\<close>

lemma to_sql_single:
  assumes "conformant d"
  shows "to_sql wraps [sql_row_of P r] ''weather_records'' None d =
     (if timestamp r = None then Inl (raised wraps (IntegrityError NotNullViolation))
      else if key_of (sql_row_of P r) \<in> key_of ` set (stored_rows d)
      then Inl (raised wraps (IntegrityError UniqueViolation))
      else Inr (replace_table ((the (weather_table d))\<lparr>rows := stored_rows d @ [sql_row_of P r]\<rparr>) d))"
proof -
  from assms(1) obtain t where t: "weather_table d = Some t" "columns t = weather_columns"
      "primary_key t = weather_key" "tname t = ''weather_records''" "stored_rows d = rows t"
    by (rule conformantE)
  show ?thesis
    using t by (simp add: to_sql_conformant insert_row_record)
qed

lemma to_sql_fault: "to_sql wraps frame name (Some e) d = Inl e"
  by (simp add: to_sql_def)

lemma sample_wraps:
  "wraps_errors sample_pandas = False" "wraps_errors wrapping_pandas = True"
  by (simp_all add: sample_pandas_def wrapping_pandas_def)

lemma sql_row_wrapping: "sql_row_of wrapping_pandas r = sql_row_of sample_pandas r"
  by (simp add: sql_row_of_def wrapping_pandas_def)

text \<open>
  C2. The claim: a failed insert is silent only for a primary-key conflict, and any other
  storage-layer error is logged. With a pandas that lets the exception of SQLite
  through (before 3.0), a record with a null timestamp, appended to the empty table,
  fails on the NOT NULL constraint of the timestamp column: no key conflicts (the table
  has no row), yet nothing is logged. With a pandas that raises its own error from it
  (3.0 and later), a record whose key is already stored fails with the key conflict,
  and the failure is logged.
\<close>

theorem C2_counterexample:
  "wraps_errors sample_pandas = False
   \<and> to_sql (wraps_errors sample_pandas)
        [sql_row_of sample_pandas ((sample_record paris ''2024-05-01T10:07'')\<lparr>timestamp := None\<rparr>)]
        ''weather_records'' None [create_table_sql]
     = Inl (IntegrityError NotNullViolation)
   \<and> stored_rows [create_table_sql] = []
   \<and> store_weather_data sample_pandas
        [(sample_record paris ''2024-05-01T10:07'')\<lparr>timestamp := None\<rparr>] None [create_table_sql]
     = ([], [create_table_sql])
   \<and> wraps_errors wrapping_pandas = True
   \<and> store_weather_data wrapping_pandas [sample_record paris ''2024-05-01T10:42''] None
        [create_table_sql\<lparr>rows := [sql_row_of sample_pandas (sample_record paris ''2024-05-01T10:07'')]\<rparr>]
     = ([Print (UnexpectedStorageError (DatabaseError (IntegrityError UniqueViolation)))],
        [create_table_sql\<lparr>rows := [sql_row_of sample_pandas (sample_record paris ''2024-05-01T10:07'')]\<rparr>])"
proof -
  have k: "key_of (sql_row_of wrapping_pandas (sample_record paris ''2024-05-01T10:42''))
      = key_of (sql_row_of sample_pandas (sample_record paris ''2024-05-01T10:07''))"
    unfolding sql_row_wrapping by (rule sample_record_key(2))
  show ?thesis
    by (simp add: to_sql_single store_single fresh_store one_row_store sample_wraps raised_def
        rejection_log_def sample_record_key(1) k)
qed

text \<open>
  C2, as the code has it. When the insert of a non-empty frame fails, the database is left
  as it was, and what is logged follows the exception that leaves \<^verbatim>\<open>to_sql\<close>: an
  \<^verbatim>\<open>sqlite3.IntegrityError\<close> of either kind (a key already stored, or a NULL in a NOT NULL
  column) is discarded without a log entry; any other error of the storage layer is
  logged as a storage error; any other exception is logged as unexpected. On the table
  as declared, a record whose key is stored is rejected for the key conflict and a
  record with a null timestamp for the NOT NULL violation; with a pandas that lets the
  exception of SQLite through (before 3.0) both are discarded without a log entry,
  with a pandas that raises its own error from it (3.0 and later) both are logged as
  unexpected.
\<close>

theorem C2_failed_insert_leaves_table:
  assumes "data_frame \<noteq> []"
    and "to_sql (wraps_errors P) (map (sql_row_of P) data_frame) ''weather_records'' fault d = Inl e"
  shows "snd (store_weather_data P data_frame fault d) = d
       \<and> (e = IntegrityError k \<longrightarrow> fst (store_weather_data P data_frame fault d) = [])
       \<and> (e = SqliteError msg \<longrightarrow>
            fst (store_weather_data P data_frame fault d) = [Print (ErrorStoringData msg)])
       \<and> ((\<forall>k'. e \<noteq> IntegrityError k') \<and> (\<forall>m. e \<noteq> SqliteError m) \<longrightarrow>
            fst (store_weather_data P data_frame fault d) = [Print (UnexpectedStorageError e)])
       \<and> (conformant c \<and> timestamp r \<noteq> None
            \<and> key_of (sql_row_of P r) \<in> key_of ` set (stored_rows c) \<longrightarrow>
            to_sql (wraps_errors P) (map (sql_row_of P) [r]) ''weather_records'' None c
              = Inl (if wraps_errors P then DatabaseError (IntegrityError UniqueViolation)
                     else IntegrityError UniqueViolation)
            \<and> store_weather_data P [r] None c
              = (if wraps_errors P
                 then [Print (UnexpectedStorageError (DatabaseError (IntegrityError UniqueViolation)))]
                 else [], c))
       \<and> (conformant c \<and> timestamp r = None \<longrightarrow>
            to_sql (wraps_errors P) (map (sql_row_of P) [r]) ''weather_records'' None c
              = Inl (if wraps_errors P then DatabaseError (IntegrityError NotNullViolation)
                     else IntegrityError NotNullViolation)
            \<and> store_weather_data P [r] None c
              = (if wraps_errors P
                 then [Print (UnexpectedStorageError (DatabaseError (IntegrityError NotNullViolation)))]
                 else [], c))"
proof -
  have a: "store_weather_data P data_frame fault d =
     ((case e of IntegrityError k \<Rightarrow> [] | SqliteError msg \<Rightarrow> [Print (ErrorStoringData msg)]
       | _ \<Rightarrow> [Print (UnexpectedStorageError e)]), d)"
    using assms by (cases e) (simp_all add: store_weather_data_def)
  have b: "conformant c \<and> timestamp r \<noteq> None
            \<and> key_of (sql_row_of P r) \<in> key_of ` set (stored_rows c) \<longrightarrow>
            to_sql (wraps_errors P) (map (sql_row_of P) [r]) ''weather_records'' None c
              = Inl (if wraps_errors P then DatabaseError (IntegrityError UniqueViolation)
                     else IntegrityError UniqueViolation)
            \<and> store_weather_data P [r] None c
              = (if wraps_errors P
                 then [Print (UnexpectedStorageError (DatabaseError (IntegrityError UniqueViolation)))]
                 else [], c)"
    by (simp add: to_sql_single store_single raised_def rejection_log_def)
  have c: "conformant c \<and> timestamp r = None \<longrightarrow>
            to_sql (wraps_errors P) (map (sql_row_of P) [r]) ''weather_records'' None c
              = Inl (if wraps_errors P then DatabaseError (IntegrityError NotNullViolation)
                     else IntegrityError NotNullViolation)
            \<and> store_weather_data P [r] None c
              = (if wraps_errors P
                 then [Print (UnexpectedStorageError (DatabaseError (IntegrityError NotNullViolation)))]
                 else [], c)"
    by (simp add: to_sql_single store_single raised_def rejection_log_def)
  from b c show ?thesis unfolding a by (cases e) simp_all
qed

theorem C2_witness:
  "[sample_record paris ''2024-05-01T10:07''] \<noteq> []
   \<and> to_sql (wraps_errors sample_pandas)
        (map (sql_row_of sample_pandas) [sample_record paris ''2024-05-01T10:07''])
        ''weather_records'' (Some (SqliteError ''database or disk is full'')) [create_table_sql]
       = Inl (SqliteError ''database or disk is full'')
   \<and> store_weather_data sample_pandas [sample_record paris ''2024-05-01T10:07'']
        (Some (SqliteError ''database or disk is full'')) [create_table_sql]
       = ([Print (ErrorStoringData ''database or disk is full'')], [create_table_sql])
   \<and> (conformant [create_table_sql]
        \<and> timestamp ((sample_record paris ''2024-05-01T10:07'')\<lparr>timestamp := None\<rparr>) = None)
   \<and> store_weather_data sample_pandas
        [(sample_record paris ''2024-05-01T10:07'')\<lparr>timestamp := None\<rparr>] None [create_table_sql]
       = ([], [create_table_sql])"
proof -
  have h1: "[sample_record paris ''2024-05-01T10:07''] \<noteq> []" by simp
  have h2: "to_sql (wraps_errors sample_pandas)
        (map (sql_row_of sample_pandas) [sample_record paris ''2024-05-01T10:07''])
        ''weather_records'' (Some (SqliteError ''database or disk is full'')) [create_table_sql]
       = Inl (SqliteError ''database or disk is full'')"
    by (rule to_sql_fault)
  have h3: "conformant [create_table_sql]
        \<and> timestamp ((sample_record paris ''2024-05-01T10:07'')\<lparr>timestamp := None\<rparr>) = None"
    by (simp add: fresh_store)
  from C2_failed_insert_leaves_table[OF h1 h2, of UniqueViolation "''database or disk is full''"
      "[create_table_sql]" "(sample_record paris ''2024-05-01T10:07'')\<lparr>timestamp := None\<rparr>"]
    h1 h2 h3
  show ?thesis by (simp add: prod_eq_iff sample_wraps)
qed

section \<open>Null keys\<close>

lemma wrapping_coercions:
  "to_datetime wrapping_pandas = to_datetime sample_pandas"
  "to_numeric wrapping_pandas = to_numeric sample_pandas"
  by (simp_all add: wrapping_pandas_def)

lemma normalize_wrapping:
  "normalize wrapping_pandas v loc now = normalize sample_pandas v loc now"
  by (simp only: normalize_def wrapping_coercions)

text \<open>
  C10. The claim: a record whose time did not parse is never stored and is dropped
  without a log entry. With a pandas that raises its own error from the exception of
  SQLite (3.0 and later), the record is not stored, but the handler that discards
  integrity errors is not reached and the last handler logs the failure.
\<close>

theorem C10_counterexample:
  "wraps_errors wrapping_pandas = True
   \<and> to_datetime wrapping_pandas (JStr ''soon'') = None
   \<and> normalize wrapping_pandas
        (JObj [(''time'', JStr ''soon''), (''temperature'', JNum 21.5), (''windspeed'', JNum 3),
               (''weathercode'', JNum 2)]) paris ''2024-05-01T10:07''
      = Inr [(sample_record paris ''2024-05-01T10:07'')\<lparr>timestamp := None\<rparr>]
   \<and> store_weather_data wrapping_pandas
        [(sample_record paris ''2024-05-01T10:07'')\<lparr>timestamp := None\<rparr>] None [create_table_sql]
      = ([Print (UnexpectedStorageError (DatabaseError (IntegrityError NotNullViolation)))],
         [create_table_sql])"
proof -
  have t: "to_datetime wrapping_pandas (JStr ''soon'') = None"
    using sample_coercions(2) by (simp add: wrapping_pandas_def)
  have n: "normalize wrapping_pandas
        (JObj [(''time'', JStr ''soon''), (''temperature'', JNum 21.5), (''windspeed'', JNum 3),
               (''weathercode'', JNum 2)]) paris ''2024-05-01T10:07''
      = Inr [(sample_record paris ''2024-05-01T10:07'')\<lparr>timestamp := None\<rparr>]"
    unfolding normalize_wrapping
    by (simp add: sample_coercions normalize_def sample_astype sample_record_def)
  show ?thesis
    using t n by (simp add: store_single fresh_store sample_wraps rejection_log_def)
qed

text \<open>
  C10, as the code has it. On a database whose table is the declared one (or is absent
  and gets created), a run keeps every stored row with a non-null timestamp, latitude
  and longitude. An observation that normalises and whose time does not parse gives a
  record with a null timestamp: appending it stores nothing, whatever the storage layer
  does; when no outside fault occurs, nothing is logged either with a pandas that lets
  the exception of SQLite through (before 3.0), and the one entry of the last handler
  is logged with a pandas that raises its own error from it (3.0 and later).
\<close>

theorem C10_stored_keys_never_null:
  assumes "schema_ready env file" "keys_nonnull file"
  shows "keys_nonnull (db (run_pipeline P locs env file))
       \<and> (conformant d \<and> map_of kvs ''time'' = Some t \<and> to_datetime P t = None
            \<and> complete_observation P (JObj kvs) \<longrightarrow>
            (\<exists>r. normalize P (JObj kvs) loc now = Inr [r] \<and> timestamp r = None
                \<and> snd (store_weather_data P [r] fault d) = d
                \<and> store_weather_data P [r] None d
                    = (if wraps_errors P
                       then [Print (UnexpectedStorageError
                                     (DatabaseError (IntegrityError NotNullViolation)))]
                       else [], d)))"
proof -
  have n: "\<And>rs. list_all (\<lambda>r. cell r ''timestamp'' \<noteq> None \<and> cell r ''latitude'' \<noteq> None
                   \<and> cell r ''longitude'' \<noteq> None) (stored_rows rs) = keys_nonnull rs"
    by (simp add: keys_nonnull_def)
  have "list_all (\<lambda>r. cell r ''timestamp'' \<noteq> None \<and> cell r ''latitude'' \<noteq> None
                   \<and> cell r ''longitude'' \<noteq> None) (stored_rows (db (run_pipeline P locs env file)))"
  proof (rule run_keeps[OF assms(1)])
    show "list_all (\<lambda>r. cell r ''timestamp'' \<noteq> None \<and> cell r ''latitude'' \<noteq> None
                   \<and> cell r ''longitude'' \<noteq> None) (stored_rows file)"
      using assms(2) by (simp only: n)
  next
    fix df' fault' d'
    assume "conformant d' \<and> list_all (\<lambda>r. cell r ''timestamp'' \<noteq> None \<and> cell r ''latitude'' \<noteq> None
                   \<and> cell r ''longitude'' \<noteq> None) (stored_rows d')"
    then have "conformant d'" "keys_nonnull d'" by (simp_all only: n)
    then have "keys_nonnull (snd (store_weather_data P df' fault' d'))" by (rule store_keys_nonnull)
    then show "list_all (\<lambda>r. cell r ''timestamp'' \<noteq> None \<and> cell r ''latitude'' \<noteq> None
                   \<and> cell r ''longitude'' \<noteq> None) (stored_rows (snd (store_weather_data P df' fault' d')))"
      by (simp only: n)
  qed
  then have a: "keys_nonnull (db (run_pipeline P locs env file))" by (simp only: n)
  have b: "\<exists>r. normalize P (JObj kvs) loc now = Inr [r] \<and> timestamp r = None
                \<and> snd (store_weather_data P [r] fault d) = d
                \<and> store_weather_data P [r] None d
                    = (if wraps_errors P
                       then [Print (UnexpectedStorageError
                                     (DatabaseError (IntegrityError NotNullViolation)))]
                       else [], d)"
    if h: "conformant d" "map_of kvs ''time'' = Some t" "to_datetime P t = None"
      "complete_observation P (JObj kvs)"
  proof -
    from complete_observation_normalize[OF h(4), of loc now]
    obtain df where df: "normalize P (JObj kvs) loc now = Inr df" by blast
    then obtain r where r: "df = [r]" "timestamp r = None"
      by (rule normalize_Inr) (use h(2,3) in simp)
    from store_single[OF h(1), of P r] store_single_rejected[OF h(1), of r P fault] r df
    show ?thesis by (simp add: rejection_log_def)
  qed
  from a b show ?thesis by blast
qed

theorem C10_witness:
  "schema_ready (steady all_well) [] \<and> keys_nonnull []
   \<and> keys_nonnull (db (run_pipeline sample_pandas [paris] (steady all_well) []))
   \<and> (conformant [create_table_sql]
        \<and> map_of [(''time'', JStr ''soon''), (''temperature'', JNum 21.5), (''windspeed'', JNum 3),
                   (''weathercode'', JNum 2)] ''time'' = Some (JStr ''soon'')
        \<and> to_datetime sample_pandas (JStr ''soon'') = None
        \<and> complete_observation sample_pandas
             (JObj [(''time'', JStr ''soon''), (''temperature'', JNum 21.5), (''windspeed'', JNum 3),
                    (''weathercode'', JNum 2)]))
   \<and> normalize sample_pandas
        (JObj [(''time'', JStr ''soon''), (''temperature'', JNum 21.5), (''windspeed'', JNum 3),
               (''weathercode'', JNum 2)]) paris ''2024-05-01T10:07''
       = Inr [(sample_record paris ''2024-05-01T10:07'')\<lparr>timestamp := None\<rparr>]
   \<and> store_weather_data sample_pandas
        [(sample_record paris ''2024-05-01T10:07'')\<lparr>timestamp := None\<rparr>] None [create_table_sql]
       = ([], [create_table_sql])"
proof -
  have h1: "schema_ready (steady all_well) []"
    by (simp add: schema_ready_def weather_table_def steady_def)
  have h2: "keys_nonnull []" by (simp add: keys_nonnull_def stored_rows_def weather_table_def)
  have h3: "conformant [create_table_sql]
        \<and> map_of [(''time'', JStr ''soon''), (''temperature'', JNum 21.5), (''windspeed'', JNum 3),
                   (''weathercode'', JNum 2)] ''time'' = Some (JStr ''soon'')
        \<and> to_datetime sample_pandas (JStr ''soon'') = None
        \<and> complete_observation sample_pandas
             (JObj [(''time'', JStr ''soon''), (''temperature'', JNum 21.5), (''windspeed'', JNum 3),
                    (''weathercode'', JNum 2)])"
    by (simp add: fresh_store sample_coercions complete_observation_def int64_whole_2)
  have n: "normalize sample_pandas
        (JObj [(''time'', JStr ''soon''), (''temperature'', JNum 21.5), (''windspeed'', JNum 3),
               (''weathercode'', JNum 2)]) paris ''2024-05-01T10:07''
       = Inr [(sample_record paris ''2024-05-01T10:07'')\<lparr>timestamp := None\<rparr>]"
    by (simp add: sample_coercions normalize_def sample_astype sample_record_def)
  from C10_stored_keys_never_null[OF h1 h2, of sample_pandas "[paris]" "[create_table_sql]"
      "[(''time'', JStr ''soon''), (''temperature'', JNum 21.5), (''windspeed'', JNum 3),
                   (''weathercode'', JNum 2)]" "JStr ''soon''" paris "''2024-05-01T10:07''" None]
    h1 h2 h3 n
  show ?thesis by (simp add: sample_wraps)
qed


end
